theory Spec2Isabelle
  imports Complex_Main "HOL-Library.Word" "HOL-Library.Multiset"
begin

section \<open>Python values, errors and pipeline frames\<close>

text \<open>
  The exceptions the modelled code can raise. \<open>BinasciiError\<close> is
  \<^verbatim>\<open>binascii.Error\<close> (a subclass of \<^verbatim>\<open>ValueError\<close> that \<^verbatim>\<open>deserialize\<close> does not
  catch, since its \<^verbatim>\<open>try\<close> block holds \<^verbatim>\<open>json.loads\<close> only), \<open>AudioopError\<close> is
  \<^verbatim>\<open>audioop.error\<close>.
\<close>

datatype py_error =
    AttributeError | TypeError | ValueError | OverflowError
  | BinasciiError | AudioopError | RuntimeError | IndexError | StopIteration
  | FileNotFoundError

type_synonym byte = "8 word"

text \<open>
  A Python \<^verbatim>\<open>float\<close> as \<^verbatim>\<open>json.loads\<close> produces it: a finite value, or one of the
  three literals \<^verbatim>\<open>Infinity\<close>, \<^verbatim>\<open>-Infinity\<close>, \<^verbatim>\<open>NaN\<close> that the decoder accepts.
\<close>

datatype py_float = Finite rat | PosInf | NegInf | NaN

text \<open>
  The values \<^verbatim>\<open>json.loads\<close> returns and \<^verbatim>\<open>json.dumps\<close> accepts. A \<open>PyDict\<close> lists
  the items of the dictionary in insertion order, one per key.
\<close>

datatype pyval =
    PyNone
  | PyBool bool
  | PyInt int
  | PyFloat py_float
  | PyStr string
  | PyList "pyval list"
  | PyDict "(string \<times> pyval) list"

text \<open>Python truth value testing, as \<^verbatim>\<open>or\<close> and \<^verbatim>\<open>not\<close> use it.\<close>

fun truthy :: "pyval \<Rightarrow> bool" where
  "truthy PyNone = False"
| "truthy (PyBool b) = b"
| "truthy (PyInt i) = (i \<noteq> 0)"
| "truthy (PyFloat f) = (f \<noteq> Finite 0)"
| "truthy (PyStr s) = (s \<noteq> [])"
| "truthy (PyList xs) = (xs \<noteq> [])"
| "truthy (PyDict kvs) = (kvs \<noteq> [])"

text \<open>\<^verbatim>\<open>x or y\<close>: \<open>x\<close> when it is truthy, else \<open>y\<close>.\<close>

definition py_or :: "pyval \<Rightarrow> pyval \<Rightarrow> pyval" where
  "py_or x y = (if truthy x then x else y)"

text \<open>\<^verbatim>\<open>d.get(key)\<close> on a dictionary: the value, or \<^verbatim>\<open>None\<close> for a missing key.\<close>

definition dict_get :: "(string \<times> pyval) list \<Rightarrow> string \<Rightarrow> pyval" where
  "dict_get kvs key = (case map_of kvs key of None \<Rightarrow> PyNone | Some v \<Rightarrow> v)"

text \<open>
  \<^verbatim>\<open>v.get(key)\<close> on any value: only a dictionary has the method, every other value
  raises \<^verbatim>\<open>AttributeError\<close>.
\<close>

fun py_get :: "pyval \<Rightarrow> string \<Rightarrow> py_error + pyval" where
  "py_get (PyDict kvs) key = Inr (dict_get kvs key)"
| "py_get _ key = Inl AttributeError"

text \<open>
  The frame classes of the pipeline engine that the code tests with \<^verbatim>\<open>isinstance\<close>.
  The four audio classes all derive from \<^verbatim>\<open>AudioRawFrame\<close>; \<^verbatim>\<open>UserAudioRawFrame\<close>
  derives from \<^verbatim>\<open>InputAudioRawFrame\<close> and \<^verbatim>\<open>TTSAudioRawFrame\<close> from
  \<^verbatim>\<open>OutputAudioRawFrame\<close>. \<open>OtherFrame\<close> stands for every class the code never
  names.
\<close>

datatype audio_class =
  InputAudioRawFrame | UserAudioRawFrame | OutputAudioRawFrame | TTSAudioRawFrame

datatype frame =
    AudioRawFrame audio_class "byte list" int int
  | EndFrame
  | CancelFrame
  | StartInterruptionFrame
  | TransportMessageFrame pyval
  | TransportMessageUrgentFrame pyval
  | UserStartedSpeakingFrame
  | UserStoppedSpeakingFrame
  | BotStartedSpeakingFrame
  | BotStoppedSpeakingFrame
  | OpenAILLMContextFrame
  | LLMMessagesFrame
  | TTSSpeakFrame string
  | STTMuteFrame bool
  | OtherFrame string

datatype FrameDirection = DOWNSTREAM | UPSTREAM

section \<open>Turn gate (app/processors/turn\_gate.py)\<close>

record TurnGateProcessor =
  enabled :: bool
  mute :: bool
  dropped :: nat
  saw_user_since_enable :: bool

definition TurnGateProcessor_init :: TurnGateProcessor where
  "TurnGateProcessor_init =
     \<lparr>enabled = True, mute = False, dropped = 0, saw_user_since_enable = False\<rparr>"

definition enable :: "TurnGateProcessor \<Rightarrow> TurnGateProcessor" where
  "enable g = g\<lparr>enabled := True, mute := False, dropped := 0, saw_user_since_enable := False\<rparr>"

definition disable :: "TurnGateProcessor \<Rightarrow> TurnGateProcessor" where
  "disable g = g\<lparr>enabled := False, mute := False, dropped := 0, saw_user_since_enable := False\<rparr>"

text \<open>\<^verbatim>\<open>isinstance(frame, (InputAudioRawFrame, UserAudioRawFrame))\<close>.\<close>

fun is_input_audio :: "frame \<Rightarrow> bool" where
  "is_input_audio (AudioRawFrame InputAudioRawFrame _ _ _) = True"
| "is_input_audio (AudioRawFrame UserAudioRawFrame _ _ _) = True"
| "is_input_audio _ = False"

text \<open>The \<^verbatim>\<open>if\<close>/\<^verbatim>\<open>elif\<close> chain of the state machine.\<close>

fun gate_transition :: "TurnGateProcessor \<Rightarrow> frame \<Rightarrow> TurnGateProcessor" where
  "gate_transition g UserStartedSpeakingFrame = g\<lparr>saw_user_since_enable := True\<rparr>"
| "gate_transition g UserStoppedSpeakingFrame =
     (if saw_user_since_enable g then g\<lparr>mute := True, dropped := 0\<rparr> else g)"
| "gate_transition g BotStoppedSpeakingFrame = g\<lparr>mute := False, saw_user_since_enable := False\<rparr>"
| "gate_transition g _ = g"

text \<open>
  \<^verbatim>\<open>process_frame\<close> returns the new state and the frames it pushed, each with its
  direction; a dropped frame pushes nothing.
\<close>

definition turn_gate_process_frame ::
  "TurnGateProcessor \<Rightarrow> frame \<Rightarrow> FrameDirection \<Rightarrow> TurnGateProcessor \<times> (frame \<times> FrameDirection) list" where
  "turn_gate_process_frame g frame direction =
     (if \<not> enabled g then (g, [(frame, direction)])
      else
        let g' = gate_transition g frame in
        if mute g' \<and> is_input_audio frame then (g'\<lparr>dropped := dropped g' + 1\<rparr>, [])
        else (g', [(frame, direction)]))"

text \<open>A run of the gate over the frames of a session, in arrival order.\<close>

fun turn_gate_run ::
  "TurnGateProcessor \<Rightarrow> (frame \<times> FrameDirection) list \<Rightarrow> TurnGateProcessor \<times> (frame \<times> FrameDirection) list" where
  "turn_gate_run g [] = (g, [])"
| "turn_gate_run g ((f, d) # rest) =
     (let (g', out) = turn_gate_process_frame g f d;
          (g'', out') = turn_gate_run g' rest
      in (g'', out @ out'))"

text \<open>The state every reset leaves: the constructor, \<^verbatim>\<open>enable\<close>, and the end of a bot turn.\<close>

definition gate_reset :: "TurnGateProcessor \<Rightarrow> bool" where
  "gate_reset g = (enabled g \<and> \<not> mute g \<and> \<not> saw_user_since_enable g)"

section \<open>Latency injector (app/processors/latency\_injector.py)\<close>

text \<open>
  The module state: \<open>LATENCY_CHOICES\<close> (the tuple read from the settings) is a parameter
  of the functions below, and \<^verbatim>\<open>_latency_cycle = itertools.cycle(LATENCY_CHOICES)\<close> is
  the number of items drawn from it so far. \<^verbatim>\<open>next\<close> on the cycle of an empty tuple
  raises \<^verbatim>\<open>StopIteration\<close>.
\<close>

definition next_latency_round_robin :: "'d list \<Rightarrow> nat \<Rightarrow> py_error + ('d \<times> nat)" where
  "next_latency_round_robin LATENCY_CHOICES latency_cycle =
     (if LATENCY_CHOICES = [] then Inl StopIteration
      else Inr (LATENCY_CHOICES ! (latency_cycle mod length LATENCY_CHOICES), latency_cycle + 1))"

text \<open>
  \<^verbatim>\<open>random.choice(seq)\<close>: \<^verbatim>\<open>IndexError\<close> on an empty sequence, else the item at the index
  the generator draws; \<open>rnd\<close> is the entropy it consumes.
\<close>

definition random_choice :: "nat \<Rightarrow> 'a list \<Rightarrow> py_error + 'a" where
  "random_choice rnd xs = (if xs = [] then Inl IndexError else Inr (xs ! (rnd mod length xs)))"

record 'd LatencyInjector =
  choices :: "'d list"
  strategy :: string
  latency_seconds :: "'d option"
  busy :: bool

text \<open>The constructor; \<open>choices_arg\<close> is the optional \<^verbatim>\<open>choices\<close> argument.\<close>

definition LatencyInjector_init ::
  "'d list \<Rightarrow> 'd list option \<Rightarrow> string \<Rightarrow> py_error + 'd LatencyInjector" where
  "LatencyInjector_init LATENCY_CHOICES choices_arg strategy_arg =
     (let cs = (case choices_arg of None \<Rightarrow> LATENCY_CHOICES
                | Some xs \<Rightarrow> if xs \<noteq> [] then xs else LATENCY_CHOICES)
      in if strategy_arg \<noteq> ''random'' \<and> strategy_arg \<noteq> ''round_robin'' then Inl ValueError
         else Inr \<lparr>choices = cs, strategy = strategy_arg, latency_seconds = None, busy = False\<rparr>)"

text \<open>
  \<^verbatim>\<open>_pick_latency\<close> returns the delay, the injector and the module's cycle position.
  It is a coroutine, so the \<^verbatim>\<open>StopIteration\<close> of an empty cycle leaves it as
  \<^verbatim>\<open>RuntimeError\<close>.
\<close>

definition pick_latency ::
  "'d list \<Rightarrow> nat \<Rightarrow> 'd LatencyInjector \<Rightarrow> nat \<Rightarrow> py_error + ('d \<times> 'd LatencyInjector \<times> nat)" where
  "pick_latency LATENCY_CHOICES rnd self latency_cycle =
     (case latency_seconds self of
        Some v \<Rightarrow> Inr (v, self, latency_cycle)
      | None \<Rightarrow>
          if strategy self = ''random'' then
            (case random_choice rnd (choices self) of
               Inl e \<Rightarrow> Inl e
             | Inr v \<Rightarrow> Inr (v, self\<lparr>latency_seconds := Some v\<rparr>, latency_cycle))
          else
            (case next_latency_round_robin LATENCY_CHOICES latency_cycle of
               Inl e \<Rightarrow> Inl RuntimeError
             | Inr (v, cyc) \<Rightarrow> Inr (v, self\<lparr>latency_seconds := Some v\<rparr>, cyc)))"

text \<open>What \<^verbatim>\<open>process_frame\<close> does, in order: frames pushed and time slept.\<close>

datatype 'd event = Push frame FrameDirection | Sleep 'd

text \<open>\<^verbatim>\<open>isinstance(frame, (OpenAILLMContextFrame, LLMMessagesFrame))\<close>.\<close>

fun is_context_frame :: "frame \<Rightarrow> bool" where
  "is_context_frame OpenAILLMContextFrame = True"
| "is_context_frame LLMMessagesFrame = True"
| "is_context_frame _ = False"

text \<open>\<^verbatim>\<open>isinstance(frame, TTSSpeakFrame)\<close>.\<close>

fun is_tts_speak :: "frame \<Rightarrow> bool" where
  "is_tts_speak (TTSSpeakFrame _) = True"
| "is_tts_speak _ = False"

text \<open>
  \<^verbatim>\<open>process_frame\<close> returns the events in the order they happen, each with the
  value \<open>busy\<close> has at that moment, then the injector, the cycle position, and the
  exception that ended the call, if any (the events and the state are then those
  reached when it was raised).
\<close>

definition latency_injector_process_frame ::
  "'d list \<Rightarrow> nat \<Rightarrow> 'd LatencyInjector \<Rightarrow> nat \<Rightarrow> frame \<Rightarrow> FrameDirection \<Rightarrow>
     ('d event \<times> bool) list \<times> 'd LatencyInjector \<times> nat \<times> py_error option" where
  "latency_injector_process_frame LATENCY_CHOICES rnd self latency_cycle frame direction =
     (let (ev1, s1, cyc1, err) =
        (if direction = DOWNSTREAM \<and> is_context_frame frame then
           (let muted = (Push (STTMuteFrame True) UPSTREAM, busy self);
                s = self\<lparr>busy := True\<rparr>
            in case pick_latency LATENCY_CHOICES rnd s latency_cycle of
                 Inl e \<Rightarrow> ([muted], s, latency_cycle, Some e)
               | Inr (latency, s', cyc) \<Rightarrow> ([muted, (Sleep latency, busy s')], s', cyc, None))
         else ([], self, latency_cycle, None))
      in case err of
           Some e \<Rightarrow> (ev1, s1, cyc1, Some e)
         | None \<Rightarrow>
             (let (ev2, s2) =
                (if busy s1 \<and> direction = DOWNSTREAM \<and> is_tts_speak frame
                 then ([(Push (STTMuteFrame False) UPSTREAM, busy s1)], s1\<lparr>busy := False\<rparr>)
                 else ([], s1))
              in (ev1 @ ev2 @ [(Push frame direction, busy s2)], s2, cyc1, None)))"

text \<open>
  The start of a session in \<^verbatim>\<open>build_pipeline\<close> (app/pipelines/call\_pipeline.py):
  \<^verbatim>\<open>latency = LatencyInjector(strategy=settings.latency.strategy)\<close>, then
  \<^verbatim>\<open>chosen_latency = await latency._pick_latency()\<close>.
\<close>

definition session_latency ::
  "'d list \<Rightarrow> string \<Rightarrow> nat \<Rightarrow> nat \<Rightarrow> py_error + ('d \<times> 'd LatencyInjector \<times> nat)" where
  "session_latency LATENCY_CHOICES strategy_setting rnd latency_cycle =
     (case LatencyInjector_init LATENCY_CHOICES None strategy_setting of
        Inl e \<Rightarrow> Inl e
      | Inr latency \<Rightarrow> pick_latency LATENCY_CHOICES rnd latency latency_cycle)"

text \<open>
  Consecutive sessions of one process under the \<^verbatim>\<open>round_robin\<close> setting, each with
  its own entropy: the delays chosen, in session order, and the cycle position left.
\<close>

fun sessions :: "'d list \<Rightarrow> nat list \<Rightarrow> nat \<Rightarrow> py_error + ('d list \<times> nat)" where
  "sessions LATENCY_CHOICES [] latency_cycle = Inr ([], latency_cycle)"
| "sessions LATENCY_CHOICES (rnd # rnds) latency_cycle =
     (case session_latency LATENCY_CHOICES ''round_robin'' rnd latency_cycle of
        Inl e \<Rightarrow> Inl e
      | Inr (v, _, cyc) \<Rightarrow>
          (case sessions LATENCY_CHOICES rnds cyc of
             Inl e \<Rightarrow> Inl e
           | Inr (vs, cyc') \<Rightarrow> Inr (v # vs, cyc')))"

section \<open>Mute coordinator (app/processors/stt\_mute.py)\<close>

text \<open>
  \<^verbatim>\<open>should_mute_callback(flt)\<close> of \<^verbatim>\<open>build_stt_mute\<close>; \<open>bot_is_speaking\<close> is the
  filter's \<^verbatim>\<open>_bot_is_speaking\<close> flag.
\<close>

definition should_mute_callback :: "bool \<Rightarrow> 'd LatencyInjector \<Rightarrow> bool" where
  "should_mute_callback bot_is_speaking latency_injector = (bot_is_speaking \<or> busy latency_injector)"

section \<open>Call-number allocator (app/providers/call\_number\_provider.py)\<close>

text \<open>
  The format \<^verbatim>\<open>f"{i:03d}"\<close>: the decimal digits of \<open>i\<close>, a minus sign first when
  \<open>i\<close> is negative, zeros after the sign up to a width of three characters. A longer
  numeral is not cut.
\<close>

definition digit_char :: "nat \<Rightarrow> char" where
  "digit_char d = ''0123456789'' ! d"

fun dec_digits :: "nat \<Rightarrow> string" where
  "dec_digits n =
     (if n < 10 then [digit_char n] else dec_digits (n div 10) @ [digit_char (n mod 10)])"

declare dec_digits.simps [simp del]

definition zero_pad :: "nat \<Rightarrow> string \<Rightarrow> string" where
  "zero_pad width s = replicate (width - length s) (CHR ''0'') @ s"

definition format_03d :: "int \<Rightarrow> string" where
  "format_03d i =
     (if i < 0 then CHR ''-'' # zero_pad 2 (dec_digits (nat (- i)))
      else zero_pad 3 (dec_digits (nat i)))"

text \<open>
  The pool file: \<open>None\<close> when it does not exist, else the list it holds.
  \<open>RANGE_START\<close> and \<open>RANGE_END\<close> are the two settings the module reads.
\<close>

type_synonym pool_file = "string list option"

definition load_pool :: "pool_file \<Rightarrow> py_error + string list" where
  "load_pool file = (case file of None \<Rightarrow> Inl FileNotFoundError | Some pool \<Rightarrow> Inr pool)"

definition save_pool :: "string list \<Rightarrow> pool_file" where
  "save_pool pool = Some pool"

definition ensure_pool :: "int \<Rightarrow> int \<Rightarrow> pool_file \<Rightarrow> pool_file" where
  "ensure_pool RANGE_START RANGE_END file =
     (case file of
        None \<Rightarrow> save_pool (map format_03d [RANGE_START..RANGE_END])
      | Some pool \<Rightarrow> Some pool)"

text \<open>
  \<^verbatim>\<open>get_number\<close>, run under the provider's lock: the number issued and the file it
  leaves. \<open>rnd\<close> is the entropy \<^verbatim>\<open>random.choice\<close> consumes; \<^verbatim>\<open>pool.remove(number)\<close>
  removes the first occurrence.
\<close>

definition get_number :: "nat \<Rightarrow> pool_file \<Rightarrow> py_error + (string \<times> pool_file)" where
  "get_number rnd file =
     (case load_pool file of
        Inl e \<Rightarrow> Inl e
      | Inr pool \<Rightarrow>
          if pool = [] then Inl RuntimeError
          else (let number = pool ! (rnd mod length pool)
                in Inr (number, save_pool (remove1 number pool))))"

text \<open>One call of \<^verbatim>\<open>get_number\<close> per element of \<open>rnds\<close>, in order; the first error ends the run.\<close>

fun get_numbers :: "nat list \<Rightarrow> pool_file \<Rightarrow> py_error + (string list \<times> pool_file)" where
  "get_numbers [] file = Inr ([], file)"
| "get_numbers (rnd # rnds) file =
     (case get_number rnd file of
        Inl e \<Rightarrow> Inl e
      | Inr (number, file') \<Rightarrow>
          (case get_numbers rnds file' of
             Inl e \<Rightarrow> Inl e
           | Inr (numbers, file'') \<Rightarrow> Inr (number # numbers, file'')))"

text \<open>
  Reading a formatted number back (leading zeros count for nothing); the proofs use it
  to show that the format maps different numbers to different strings.
\<close>

definition digit_val :: "char \<Rightarrow> nat" where
  "digit_val c = of_char c - 48"

definition dec_val :: "string \<Rightarrow> nat" where
  "dec_val s = foldl (\<lambda>a c. 10 * a + digit_val c) 0 s"

definition parse_int :: "string \<Rightarrow> int" where
  "parse_int s =
     (case s of
        [] \<Rightarrow> 0
      | c # cs \<Rightarrow> if c = CHR ''-'' then - int (dec_val cs) else int (dec_val s))"

section \<open>Protocol serializer (app/transports/acs\_serializer.py)\<close>

subsection \<open>Library functions it calls\<close>

text \<open>
  \<^verbatim>\<open>base64.b64encode\<close>: three bytes become four characters of the alphabet, a last
  group of one or two bytes is padded with \<open>=\<close>.
\<close>

definition b64_alphabet :: string where
  "b64_alphabet = ''ABCDEFGHIJKLMNOPQRSTUVWXYZabcdefghijklmnopqrstuvwxyz0123456789+/''"

definition b64_char :: "nat \<Rightarrow> char" where
  "b64_char i = b64_alphabet ! (i mod 64)"

fun b64encode :: "byte list \<Rightarrow> string" where
  "b64encode [] = []"
| "b64encode [a] =
     [b64_char (unat a div 4), b64_char (unat a mod 4 * 16), CHR ''='', CHR ''='']"
| "b64encode [a, b] =
     [b64_char (unat a div 4), b64_char (unat a mod 4 * 16 + unat b div 16),
      b64_char (unat b mod 16 * 4), CHR ''='']"
| "b64encode (a # b # c # rest) =
     [b64_char (unat a div 4), b64_char (unat a mod 4 * 16 + unat b div 16),
      b64_char (unat b mod 16 * 4 + unat c div 64), b64_char (unat c mod 64)]
     @ b64encode rest"

text \<open>
  The decoding table of \<^verbatim>\<open>binascii.a2b_base64\<close>: the six-bit value of a character of
  the alphabet, \<open>None\<close> for every other character.
\<close>

definition b64_value :: "char \<Rightarrow> nat option" where
  "b64_value c =
     (let n = (of_char c :: nat) in
      if 65 \<le> n \<and> n \<le> 90 then Some (n - 65)
      else if 97 \<le> n \<and> n \<le> 122 then Some (n - 71)
      else if 48 \<le> n \<and> n \<le> 57 then Some (n + 4)
      else if n = 43 then Some 62
      else if n = 47 then Some 63
      else None)"

definition emit :: "byte \<Rightarrow> py_error + byte list \<Rightarrow> py_error + byte list" where
  "emit b r = (case r of Inl e \<Rightarrow> Inl e | Inr bs \<Rightarrow> Inr (b # bs))"

text \<open>
  The loop of \<^verbatim>\<open>binascii.a2b_base64\<close> as \<^verbatim>\<open>base64.b64decode\<close> calls it (not strict):
  \<open>quad_pos\<close> counts the characters of the current group of four, \<open>leftchar\<close> holds
  the bits not yet written, \<open>pads\<close> the \<open>=\<close> seen since the last character of the
  alphabet. A character outside the alphabet is skipped; a \<open>=\<close> that completes a
  group ends the decoding; input that ends inside a group raises \<^verbatim>\<open>binascii.Error\<close>.
\<close>

fun a2b_base64 :: "string \<Rightarrow> nat \<Rightarrow> nat \<Rightarrow> nat \<Rightarrow> py_error + byte list" where
  "a2b_base64 [] quad_pos leftchar pads =
     (if quad_pos \<noteq> 0 then Inl BinasciiError else Inr [])"
| "a2b_base64 (c # cs) quad_pos leftchar pads =
     (if c = CHR ''='' then
        (if 2 \<le> quad_pos \<and> 4 \<le> quad_pos + (pads + 1) then Inr []
         else a2b_base64 cs quad_pos leftchar (if 2 \<le> quad_pos then pads + 1 else pads))
      else
        (case b64_value c of
           None \<Rightarrow> a2b_base64 cs quad_pos leftchar pads
         | Some v \<Rightarrow>
             if quad_pos = 0 then a2b_base64 cs 1 v 0
             else if quad_pos = 1 then
               emit (of_nat (leftchar * 4 + v div 16)) (a2b_base64 cs 2 (v mod 16) 0)
             else if quad_pos = 2 then
               emit (of_nat (leftchar * 16 + v div 4)) (a2b_base64 cs 3 (v mod 4) 0)
             else
               emit (of_nat (leftchar * 64 + v)) (a2b_base64 cs 0 0 0)))"

text \<open>
  \<^verbatim>\<open>base64.b64decode(s)\<close> for a string \<open>s\<close>: \<^verbatim>\<open>ValueError\<close> when a character is not
  ASCII, else the decoding above.
\<close>

definition b64decode :: "string \<Rightarrow> py_error + byte list" where
  "b64decode s =
     (if list_ex (\<lambda>c. 128 \<le> (of_char c :: nat)) s then Inl ValueError
      else a2b_base64 s 0 0 0)"

text \<open>
  \<^verbatim>\<open>base64.b64decode\<close> applied to a value of a decoded message: a string is decoded,
  every other value is neither bytes-like nor a string and raises \<^verbatim>\<open>TypeError\<close>.
\<close>

fun py_b64decode :: "pyval \<Rightarrow> py_error + byte list" where
  "py_b64decode (PyStr s) = b64decode s"
| "py_b64decode _ = Inl TypeError"

text \<open>
  \<^verbatim>\<open>audioop.ratecv(fragment, 2, 1, inrate, outrate, None)\<close>: 16-bit little-endian
  mono samples, no previous state, the default filter weights (1, 0). The C function
  works on samples shifted left by 16 bits and interpolates linearly between the
  previous and the current input sample, converting the quotient to \<^verbatim>\<open>int\<close> (towards
  zero); written here in exact integer arithmetic.
\<close>

fun samples16 :: "byte list \<Rightarrow> int list" where
  "samples16 (lo # hi # rest) =
     (let u = int (unat lo) + 256 * int (unat hi)
      in (if 32768 \<le> u then u - 65536 else u) # samples16 rest)"
| "samples16 _ = []"

fun bytes16 :: "int list \<Rightarrow> byte list" where
  "bytes16 [] = []"
| "bytes16 (s # ss) = of_int (s mod 256) # of_int (s div 256 mod 256) # bytes16 ss"

definition trunc_div :: "int \<Rightarrow> int \<Rightarrow> int" where
  "trunc_div a b = sgn a * sgn b * (\<bar>a\<bar> div \<bar>b\<bar>)"

definition interpolate :: "int \<Rightarrow> int \<Rightarrow> int \<Rightarrow> int \<Rightarrow> int" where
  "interpolate prev_i cur_i d outrate =
     trunc_div (prev_i * 65536 * d + cur_i * 65536 * (outrate - d)) outrate div 65536"

function ratecv_loop :: "int \<Rightarrow> int \<Rightarrow> int \<Rightarrow> int \<Rightarrow> int \<Rightarrow> int list \<Rightarrow> int list" where
  "ratecv_loop inrate outrate d prev_i cur_i samples =
     (if d < 0 then
        (case samples of
           [] \<Rightarrow> []
         | s # rest \<Rightarrow> ratecv_loop inrate outrate (d + outrate) cur_i s rest)
      else if inrate \<le> 0 then []
      else interpolate prev_i cur_i d outrate
             # ratecv_loop inrate outrate (d - inrate) prev_i cur_i samples)"
  by pat_completeness auto
termination
  by (relation "measures [\<lambda>(inrate, outrate, d, prev_i, cur_i, samples). length samples,
                          \<lambda>(inrate, outrate, d, prev_i, cur_i, samples). nat (d + 1)]")
     auto

declare ratecv_loop.simps [simp del]

text \<open>The converted fragment, for rates that passed the checks of \<^verbatim>\<open>ratecv\<close>.\<close>

definition resample :: "byte list \<Rightarrow> int \<Rightarrow> int \<Rightarrow> byte list" where
  "resample fragment inrate outrate =
     (let g = gcd inrate outrate; rin = inrate div g; rout = outrate div g
      in bytes16 (ratecv_loop rin rout (- rout) 0 0 (samples16 fragment)))"

definition c_int :: "int \<Rightarrow> bool" where
  "c_int i = (- 2147483648 \<le> i \<and> i \<le> 2147483647)"

text \<open>
  \<^verbatim>\<open>ratecv\<close> with its checks, in the order the C code makes them: both rates are
  converted to C \<^verbatim>\<open>int\<close> when the arguments are parsed, then the fragment must hold
  whole frames and both rates must be positive.
\<close>

definition ratecv :: "byte list \<Rightarrow> int \<Rightarrow> int \<Rightarrow> py_error + byte list" where
  "ratecv fragment inrate outrate =
     (if \<not> c_int inrate \<or> \<not> c_int outrate then Inl OverflowError
      else if length fragment mod 2 \<noteq> 0 then Inl AudioopError
      else if inrate \<le> 0 \<or> outrate \<le> 0 then Inl AudioopError
      else Inr (resample fragment inrate outrate))"

text \<open>
  A value of a decoded message passed where \<^verbatim>\<open>ratecv\<close> expects an \<^verbatim>\<open>int\<close>: an integer
  or a boolean is accepted, every other value raises \<^verbatim>\<open>TypeError\<close>.
\<close>

fun py_int_arg :: "pyval \<Rightarrow> py_error + int" where
  "py_int_arg (PyInt i) = Inr i"
| "py_int_arg (PyBool b) = Inr (if b then 1 else 0)"
| "py_int_arg _ = Inl TypeError"

text \<open>\<^verbatim>\<open>v != n\<close> for a value and an integer: numbers compare by value, nothing else equals a number.\<close>

fun py_ne_int :: "pyval \<Rightarrow> int \<Rightarrow> bool" where
  "py_ne_int (PyInt i) n = (i \<noteq> n)"
| "py_ne_int (PyBool b) n = ((if b then 1 else 0) \<noteq> n)"
| "py_ne_int (PyFloat f) n = (f \<noteq> Finite (of_int n))"
| "py_ne_int _ n = True"

subsection \<open>The serializer\<close>

record ACSFrameSerializer =
  auto_stop_audio :: bool
  sample_rate :: int

text \<open>The constructor with \<^verbatim>\<open>InputParams(sample_rate, auto_stop_audio)\<close>; the defaults are 16000 and true.\<close>

definition ACSFrameSerializer_init :: "int \<Rightarrow> bool \<Rightarrow> ACSFrameSerializer" where
  "ACSFrameSerializer_init params_sample_rate params_auto_stop_audio =
     \<lparr>auto_stop_audio = params_auto_stop_audio, sample_rate = params_sample_rate\<rparr>"

text \<open>\<^verbatim>\<open>setup(frame)\<close>, with the \<^verbatim>\<open>audio_in_sample_rate\<close> of the start frame.\<close>

definition serializer_setup :: "ACSFrameSerializer \<Rightarrow> int \<Rightarrow> ACSFrameSerializer" where
  "serializer_setup self audio_in_sample_rate =
     self\<lparr>sample_rate := (if audio_in_sample_rate \<noteq> 0 then audio_in_sample_rate
                           else sample_rate self)\<rparr>"

text \<open>The two documents \<^verbatim>\<open>serialize\<close> builds; the text sent is \<^verbatim>\<open>json.dumps\<close> of them.\<close>

definition stop_audio_message :: pyval where
  "stop_audio_message = PyDict [(''kind'', PyStr ''stopAudio''), (''stopAudio'', PyDict [])]"

definition audio_envelope :: "string \<Rightarrow> int \<Rightarrow> pyval" where
  "audio_envelope payload sr =
     PyDict [(''kind'', PyStr ''audioData''),
             (''audioData'',
              PyDict [(''timestamp'', PyNone),
                      (''participantRawID'', PyStr ''''),
                      (''data'', PyStr payload),
                      (''silent'', PyBool False),
                      (''sampleRate'', PyInt sr)])]"

text \<open>
  \<^verbatim>\<open>serialize\<close> returns the document it hands to \<^verbatim>\<open>json.dumps\<close>, or \<^verbatim>\<open>None\<close>. The
  equations follow the \<^verbatim>\<open>if\<close>/\<^verbatim>\<open>elif\<close> chain.
\<close>

fun serialize :: "ACSFrameSerializer \<Rightarrow> frame \<Rightarrow> py_error + pyval option" where
  "serialize self EndFrame = Inr (if auto_stop_audio self then Some stop_audio_message else None)"
| "serialize self CancelFrame = Inr (if auto_stop_audio self then Some stop_audio_message else None)"
| "serialize self StartInterruptionFrame =
     Inr (if auto_stop_audio self then Some stop_audio_message else None)"
| "serialize self (AudioRawFrame cls audio frame_sample_rate num_channels) =
     (let sr = (if frame_sample_rate \<noteq> 0 then frame_sample_rate else sample_rate self) in
      if sr \<noteq> 16000 then
        (case ratecv audio sr 16000 of
           Inl e \<Rightarrow> Inl e
         | Inr pcm \<Rightarrow> Inr (Some (audio_envelope (b64encode pcm) 16000)))
      else Inr (Some (audio_envelope (b64encode audio) sr)))"
| "serialize self (TransportMessageFrame message) = Inr (Some message)"
| "serialize self (TransportMessageUrgentFrame message) = Inr (Some message)"
| "serialize self _ = Inr None"

text \<open>
  \<^verbatim>\<open>deserialize\<close>. \<open>loaded\<close> is what \<^verbatim>\<open>json.loads(data)\<close> did: \<open>None\<close> when it raised
  \<^verbatim>\<open>ValueError\<close> (which the \<^verbatim>\<open>except\<close> clause turns into \<^verbatim>\<open>return None\<close>), else the
  decoded value. Every later exception leaves the function. An exception of
  \<^verbatim>\<open>json.loads\<close> that is not a \<^verbatim>\<open>ValueError\<close> (\<^verbatim>\<open>RecursionError\<close> on very deep
  nesting) is not caught either; such input is outside this model.
\<close>

definition deserialize :: "ACSFrameSerializer \<Rightarrow> pyval option \<Rightarrow> py_error + frame option" where
  "deserialize self loaded =
     (case loaded of
        None \<Rightarrow> Inr None
      | Some (PyDict msg) \<Rightarrow>
          (let kind = py_or (dict_get msg ''kind'') (dict_get msg ''Kind'') in
           if kind \<noteq> PyStr ''AudioData'' then Inr None
           else
             (case py_or (py_or (dict_get msg ''audioData'') (dict_get msg ''AudioData'')) (PyDict []) of
                PyDict audio \<Rightarrow>
                  (let b64 = py_or (dict_get audio ''data'') (dict_get audio ''Data'') in
                   if \<not> truthy b64 then Inr None
                   else
                     (case py_b64decode b64 of
                        Inl e \<Rightarrow> Inl e
                      | Inr pcm \<Rightarrow>
                          (let sr = py_or (py_or (dict_get audio ''sampleRate'')
                                                 (dict_get audio ''SampleRate'')) (PyInt 16000) in
                           if py_ne_int sr (sample_rate self) then
                             (case py_int_arg sr of
                                Inl e \<Rightarrow> Inl e
                              | Inr inrate \<Rightarrow>
                                  (case ratecv pcm inrate (sample_rate self) of
                                     Inl e \<Rightarrow> Inl e
                                   | Inr pcm' \<Rightarrow>
                                       Inr (Some (AudioRawFrame InputAudioRawFrame pcm'
                                                    (sample_rate self) 1))))
                           else Inr (Some (AudioRawFrame InputAudioRawFrame pcm
                                             (sample_rate self) 1)))))
              | _ \<Rightarrow> Inl AttributeError))
      | Some _ \<Rightarrow> Inl AttributeError)"

section \<open>Turn gate: proofs\<close>

lemma run_append:
  "turn_gate_run g (xs @ ys) =
     (let (g', out) = turn_gate_run g xs; (g'', out') = turn_gate_run g' ys in (g'', out @ out'))"
  by (induction xs arbitrary: g) (auto split: prod.splits)

lemma run_muted_audio:
  "enabled g \<Longrightarrow> mute g \<Longrightarrow> \<forall>x\<in>set xs. is_input_audio (fst x) \<Longrightarrow>
   turn_gate_run g xs = (g\<lparr>dropped := dropped g + length xs\<rparr>, [])"
proof (induction xs arbitrary: g)
  case Nil
  then show ?case by simp
next
  case (Cons x xs)
  obtain f d where x: "x = (f, d)" by (cases x)
  from Cons.prems x have a: "is_input_audio f" by simp
  then have t: "gate_transition g f = g" by (cases f) auto
  let ?g = "g\<lparr>dropped := dropped g + 1\<rparr>"
  have step: "turn_gate_process_frame g f d = (?g, [])"
    using Cons.prems a t by (simp add: turn_gate_process_frame_def)
  have "turn_gate_run ?g xs = (?g\<lparr>dropped := dropped ?g + length xs\<rparr>, [])"
    using Cons.prems by (intro Cons.IH) auto
  then show ?case using step x by simp
qed

lemma run_open_audio:
  "enabled g \<Longrightarrow> \<not> mute g \<Longrightarrow> \<forall>x\<in>set xs. is_input_audio (fst x) \<Longrightarrow>
   turn_gate_run g xs = (g, xs)"
proof (induction xs arbitrary: g)
  case Nil
  then show ?case by simp
next
  case (Cons x xs)
  obtain f d where x: "x = (f, d)" by (cases x)
  from Cons.prems x have a: "is_input_audio f" by simp
  then have t: "gate_transition g f = g" by (cases f) auto
  have step: "turn_gate_process_frame g f d = (g, [(f, d)])"
    using Cons.prems t by (simp add: turn_gate_process_frame_def)
  have "turn_gate_run g xs = (g, xs)"
    using Cons.prems by (intro Cons.IH) auto
  then show ?case using step x by simp
qed

lemma run_reset_no_user_start:
  "gate_reset g \<Longrightarrow> \<forall>x\<in>set xs. fst x \<noteq> UserStartedSpeakingFrame \<Longrightarrow>
   turn_gate_run g xs = (g, xs)"
proof (induction xs)
  case Nil
  then show ?case by simp
next
  case (Cons x xs)
  obtain f d where x: "x = (f, d)" by (cases x)
  from Cons.prems x have nf: "f \<noteq> UserStartedSpeakingFrame" by simp
  have t: "gate_transition g f = g"
    using Cons.prems(1) nf by (cases f) (auto simp: gate_reset_def)
  have step: "turn_gate_process_frame g f d = (g, [(f, d)])"
    using Cons.prems(1) t by (simp add: turn_gate_process_frame_def gate_reset_def)
  have "turn_gate_run g xs = (g, xs)"
    using Cons.prems by (intro Cons.IH) auto
  then show ?case using step x by simp
qed

lemma gate_reset_cases:
  "gate_reset TurnGateProcessor_init"
  "gate_reset (enable g)"
  "enabled g \<Longrightarrow> gate_reset (fst (turn_gate_process_frame g BotStoppedSpeakingFrame d))"
  by (simp_all add: gate_reset_def TurnGateProcessor_init_def enable_def
      turn_gate_process_frame_def)

text \<open>
  C5. An enabled gate that processes caller-started, caller-stopped, \<open>N\<close> raw caller
  audio frames and bot-stopped pushes none of the \<open>N\<close> audio frames (it counts them
  in \<open>dropped\<close>) and pushes the raw audio frames that arrive after bot-stopped. After a
  reset (the constructor, \<^verbatim>\<open>enable\<close>, or a bot-stopped frame), a caller-stopped
  frame that no caller-started frame precedes does not mute: every frame, raw audio
  included, is pushed.
\<close>

theorem turn_gate_sequence:
  assumes en: "enabled g"
    and audio: "\<forall>x\<in>set audio. is_input_audio (fst x)"
    and later: "\<forall>x\<in>set later. is_input_audio (fst x)"
    and reset: "r = TurnGateProcessor_init \<or> r = enable g0 \<or>
                (enabled g1 \<and> r = fst (turn_gate_process_frame g1 BotStoppedSpeakingFrame d0))"
    and pre: "\<forall>x\<in>set pre. fst x \<noteq> UserStartedSpeakingFrame"
    and rest: "\<forall>x\<in>set rest. is_input_audio (fst x)"
  shows "turn_gate_run g ((UserStartedSpeakingFrame, d1) # (UserStoppedSpeakingFrame, d2) # audio)
           = (g\<lparr>saw_user_since_enable := True, mute := True, dropped := length audio\<rparr>,
              [(UserStartedSpeakingFrame, d1), (UserStoppedSpeakingFrame, d2)])
       \<and> snd (turn_gate_run g ((UserStartedSpeakingFrame, d1) # (UserStoppedSpeakingFrame, d2) #
                audio @ (BotStoppedSpeakingFrame, d3) # later))
           = (UserStartedSpeakingFrame, d1) # (UserStoppedSpeakingFrame, d2) #
               (BotStoppedSpeakingFrame, d3) # later
       \<and> turn_gate_run r (pre @ (UserStoppedSpeakingFrame, d4) # rest)
           = (r, pre @ (UserStoppedSpeakingFrame, d4) # rest)
       \<and> \<not> mute r"
proof -
  let ?g2 = "g\<lparr>saw_user_since_enable := True, mute := True, dropped := 0\<rparr>"
  let ?g3 = "g\<lparr>saw_user_since_enable := True, mute := True, dropped := length audio\<rparr>"
  let ?g4 = "?g3\<lparr>mute := False, saw_user_since_enable := False\<rparr>"
  have s1: "turn_gate_process_frame g UserStartedSpeakingFrame d1
              = (g\<lparr>saw_user_since_enable := True\<rparr>, [(UserStartedSpeakingFrame, d1)])"
    using en by (simp add: turn_gate_process_frame_def)
  have s2: "turn_gate_process_frame (g\<lparr>saw_user_since_enable := True\<rparr>) UserStoppedSpeakingFrame d2
              = (?g2, [(UserStoppedSpeakingFrame, d2)])"
    using en by (simp add: turn_gate_process_frame_def)
  have "turn_gate_run ?g2 audio = (?g2\<lparr>dropped := dropped ?g2 + length audio\<rparr>, [])"
    using en audio by (intro run_muted_audio) auto
  then have s3: "turn_gate_run ?g2 audio = (?g3, [])" by simp
  have s4: "turn_gate_process_frame ?g3 BotStoppedSpeakingFrame d3
              = (?g4, [(BotStoppedSpeakingFrame, d3)])"
    using en by (simp add: turn_gate_process_frame_def)
  have s5: "turn_gate_run ?g4 later = (?g4, later)"
    using en later by (intro run_open_audio) auto
  have A: "turn_gate_run g ((UserStartedSpeakingFrame, d1) # (UserStoppedSpeakingFrame, d2) # audio)
             = (?g3, [(UserStartedSpeakingFrame, d1), (UserStoppedSpeakingFrame, d2)])"
    using s1 s2 s3 by simp
  have "turn_gate_run ?g2 (audio @ (BotStoppedSpeakingFrame, d3) # later)
          = (?g4, (BotStoppedSpeakingFrame, d3) # later)"
    using s3 s4 s5 by (simp add: run_append)
  then have B: "snd (turn_gate_run g ((UserStartedSpeakingFrame, d1) # (UserStoppedSpeakingFrame, d2) #
                  audio @ (BotStoppedSpeakingFrame, d3) # later))
             = (UserStartedSpeakingFrame, d1) # (UserStoppedSpeakingFrame, d2) #
                 (BotStoppedSpeakingFrame, d3) # later"
    using s1 s2 by simp
  have rr: "gate_reset r"
    using reset gate_reset_cases by auto
  have "\<forall>x\<in>set (pre @ (UserStoppedSpeakingFrame, d4) # rest). fst x \<noteq> UserStartedSpeakingFrame"
    using pre rest by auto
  then have C: "turn_gate_run r (pre @ (UserStoppedSpeakingFrame, d4) # rest)
             = (r, pre @ (UserStoppedSpeakingFrame, d4) # rest)"
    using rr by (rule run_reset_no_user_start[rotated])
  from A B C rr show ?thesis by (simp add: gate_reset_def)
qed

theorem turn_gate_sequence_witness:
  "turn_gate_run TurnGateProcessor_init
     [(UserStartedSpeakingFrame, DOWNSTREAM), (UserStoppedSpeakingFrame, DOWNSTREAM),
      (AudioRawFrame InputAudioRawFrame [1, 2] 16000 1, DOWNSTREAM),
      (AudioRawFrame UserAudioRawFrame [3, 4] 16000 1, DOWNSTREAM)]
     = (TurnGateProcessor_init\<lparr>saw_user_since_enable := True, mute := True, dropped := 2\<rparr>,
        [(UserStartedSpeakingFrame, DOWNSTREAM), (UserStoppedSpeakingFrame, DOWNSTREAM)])
   \<and> snd (turn_gate_run TurnGateProcessor_init
       [(UserStartedSpeakingFrame, DOWNSTREAM), (UserStoppedSpeakingFrame, DOWNSTREAM),
        (AudioRawFrame InputAudioRawFrame [1, 2] 16000 1, DOWNSTREAM),
        (AudioRawFrame UserAudioRawFrame [3, 4] 16000 1, DOWNSTREAM),
        (BotStoppedSpeakingFrame, UPSTREAM),
        (AudioRawFrame InputAudioRawFrame [5, 6] 16000 1, DOWNSTREAM)])
     = [(UserStartedSpeakingFrame, DOWNSTREAM), (UserStoppedSpeakingFrame, DOWNSTREAM),
        (BotStoppedSpeakingFrame, UPSTREAM),
        (AudioRawFrame InputAudioRawFrame [5, 6] 16000 1, DOWNSTREAM)]
   \<and> turn_gate_run (enable TurnGateProcessor_init)
       [(OtherFrame ''StartFrame'', DOWNSTREAM), (UserStoppedSpeakingFrame, DOWNSTREAM),
        (AudioRawFrame InputAudioRawFrame [7, 8] 16000 1, DOWNSTREAM)]
     = (enable TurnGateProcessor_init,
        [(OtherFrame ''StartFrame'', DOWNSTREAM), (UserStoppedSpeakingFrame, DOWNSTREAM),
         (AudioRawFrame InputAudioRawFrame [7, 8] 16000 1, DOWNSTREAM)])
   \<and> \<not> mute (enable TurnGateProcessor_init)"
  using turn_gate_sequence
    [of TurnGateProcessor_init
        "[(AudioRawFrame InputAudioRawFrame [1, 2] 16000 1, DOWNSTREAM),
          (AudioRawFrame UserAudioRawFrame [3, 4] 16000 1, DOWNSTREAM)]"
        "[(AudioRawFrame InputAudioRawFrame [5, 6] 16000 1, DOWNSTREAM)]"
        "enable TurnGateProcessor_init" TurnGateProcessor_init TurnGateProcessor_init DOWNSTREAM
        "[(OtherFrame ''StartFrame'', DOWNSTREAM)]"
        "[(AudioRawFrame InputAudioRawFrame [7, 8] 16000 1, DOWNSTREAM)]"
        DOWNSTREAM DOWNSTREAM UPSTREAM DOWNSTREAM]
  by (simp add: TurnGateProcessor_init_def)

text \<open>
  C9. In every state of the gate a frame that is not raw caller audio is pushed
  unchanged, and a frame is dropped only when it is raw caller audio and the gate is
  enabled and muted. \<^verbatim>\<open>disable\<close> resets the state; a disabled gate pushes every
  frame, raw audio included, and keeps its state, until \<^verbatim>\<open>enable\<close> switches it on
  again.
\<close>

theorem turn_gate_passes_all_but_gated_audio:
  "(\<not> is_input_audio f \<longrightarrow> snd (turn_gate_process_frame g f d) = [(f, d)])
   \<and> snd (turn_gate_process_frame g f d)
       = (if enabled g \<and> mute g \<and> is_input_audio f then [] else [(f, d)])
   \<and> disable g = \<lparr>enabled = False, mute = False, dropped = 0, saw_user_since_enable = False\<rparr>
   \<and> turn_gate_process_frame (disable g) f d = (disable g, [(f, d)])
   \<and> turn_gate_run (disable g) fs = (disable g, fs)
   \<and> enabled (enable (disable g))"
proof -
  have t: "is_input_audio f \<Longrightarrow> gate_transition g f = g" by (cases f) auto
  have a: "snd (turn_gate_process_frame g f d)
       = (if enabled g \<and> mute g \<and> is_input_audio f then [] else [(f, d)])"
    using t by (auto simp: turn_gate_process_frame_def Let_def)
  have b: "\<And>h e. turn_gate_process_frame (disable g) h e = (disable g, [(h, e)])"
    by (simp add: turn_gate_process_frame_def disable_def)
  have c: "turn_gate_run (disable g) fs = (disable g, fs)"
    by (induction fs) (auto simp: b)
  show ?thesis using a b c by (simp add: disable_def enable_def)
qed

theorem turn_gate_passes_all_but_gated_audio_witness:
  "snd (turn_gate_process_frame
         (TurnGateProcessor_init\<lparr>saw_user_since_enable := True, mute := True\<rparr>)
         (TTSSpeakFrame ''Guten Tag.'') DOWNSTREAM) = [(TTSSpeakFrame ''Guten Tag.'', DOWNSTREAM)]
   \<and> turn_gate_process_frame
         (disable (TurnGateProcessor_init\<lparr>saw_user_since_enable := True, mute := True\<rparr>))
         (AudioRawFrame InputAudioRawFrame [1, 2] 16000 1) DOWNSTREAM
       = (disable (TurnGateProcessor_init\<lparr>saw_user_since_enable := True, mute := True\<rparr>),
          [(AudioRawFrame InputAudioRawFrame [1, 2] 16000 1, DOWNSTREAM)])"
proof -
  have "\<not> is_input_audio (TTSSpeakFrame ''Guten Tag.'')" by simp
  then have a: "snd (turn_gate_process_frame
         (TurnGateProcessor_init\<lparr>saw_user_since_enable := True, mute := True\<rparr>)
         (TTSSpeakFrame ''Guten Tag.'') DOWNSTREAM) = [(TTSSpeakFrame ''Guten Tag.'', DOWNSTREAM)]"
    using turn_gate_passes_all_but_gated_audio
      [where f = "TTSSpeakFrame ''Guten Tag.''" and d = DOWNSTREAM and fs = "[]"
         and g = "TurnGateProcessor_init\<lparr>saw_user_since_enable := True, mute := True\<rparr>"]
    by blast
  show ?thesis
    using a turn_gate_passes_all_but_gated_audio
      [where f = "AudioRawFrame InputAudioRawFrame [1, 2] 16000 1" and d = DOWNSTREAM and fs = "[]"
         and g = "TurnGateProcessor_init\<lparr>saw_user_since_enable := True, mute := True\<rparr>"]
    by blast
qed

section \<open>Latency injector and mute coordinator: proofs\<close>

lemma pick_latency_busy:
  "pick_latency LC rnd (self\<lparr>busy := b\<rparr>) cyc =
     (case pick_latency LC rnd self cyc of
        Inl e \<Rightarrow> Inl e
      | Inr (v, s, c) \<Rightarrow> Inr (v, s\<lparr>busy := b\<rparr>, c))"
  by (simp add: pick_latency_def split: option.splits sum.splits prod.splits)

lemma pick_latency_caches:
  "pick_latency LC rnd self cyc = Inr (v, s, c) \<Longrightarrow> latency_seconds s = Some v"
  by (auto simp: pick_latency_def split: option.splits sum.splits prod.splits if_splits)

lemma process_frame_other:
  "\<not> (direction = DOWNSTREAM \<and> is_context_frame frame) \<Longrightarrow>
   latency_injector_process_frame LC rnd self cyc frame direction =
     (if busy self \<and> direction = DOWNSTREAM \<and> is_tts_speak frame
      then ([(Push (STTMuteFrame False) UPSTREAM, True), (Push frame direction, False)],
            self\<lparr>busy := False\<rparr>, cyc, None)
      else ([(Push frame direction, busy self)], self, cyc, None))"
  by (auto simp: latency_injector_process_frame_def)

lemma context_not_tts: "is_context_frame frame \<Longrightarrow> \<not> is_tts_speak frame"
  by (cases frame) auto

lemma process_frame_context:
  "is_context_frame frame \<Longrightarrow>
   latency_injector_process_frame LC rnd self cyc frame DOWNSTREAM =
     (case pick_latency LC rnd self cyc of
        Inl e \<Rightarrow> ([(Push (STTMuteFrame True) UPSTREAM, busy self)], self\<lparr>busy := True\<rparr>, cyc, Some e)
      | Inr (latency, s, c) \<Rightarrow>
          ([(Push (STTMuteFrame True) UPSTREAM, busy self), (Sleep latency, True),
            (Push frame DOWNSTREAM, True)],
           s\<lparr>busy := True\<rparr>, c, None))"
  by (auto simp: latency_injector_process_frame_def pick_latency_busy context_not_tts
      split: sum.splits prod.splits)

text \<open>
  C6. On a context frame travelling downstream (\<^verbatim>\<open>OpenAILLMContextFrame\<close> or
  \<^verbatim>\<open>LLMMessagesFrame\<close>) for which \<^verbatim>\<open>_pick_latency\<close> returns \<open>latency\<close>, the injector
  pushes the mute signal upstream, then sleeps exactly \<open>latency\<close> with \<open>busy\<close> set,
  then pushes the frame downstream with \<open>busy\<close> still set, and does nothing else: no
  unmute signal; it ends with \<open>busy\<close> set and the delay cached. On a
  \<^verbatim>\<open>TTSSpeakFrame\<close> travelling downstream while \<open>busy\<close> it pushes the unmute signal
  before the frame and clears \<open>busy\<close>. For every frame, an unmute signal among the
  pushed frames that is not the processed frame itself, or a \<open>busy\<close> flag that goes
  from set to clear, means the frame was a \<^verbatim>\<open>TTSSpeakFrame\<close> travelling downstream
  while \<open>busy\<close> was set.
\<close>

theorem latency_injector_mute_protocol:
  "(is_context_frame frame \<and> pick_latency LC rnd self cyc = Inr (latency, s, c) \<longrightarrow>
      latency_injector_process_frame LC rnd self cyc frame DOWNSTREAM =
        ([(Push (STTMuteFrame True) UPSTREAM, busy self), (Sleep latency, True),
          (Push frame DOWNSTREAM, True)],
         s\<lparr>busy := True\<rparr>, c, None)
      \<and> latency_seconds (s\<lparr>busy := True\<rparr>) = Some latency)
   \<and> (busy self \<and> is_tts_speak frame \<longrightarrow>
      latency_injector_process_frame LC rnd self cyc frame DOWNSTREAM =
        ([(Push (STTMuteFrame False) UPSTREAM, True), (Push frame DOWNSTREAM, False)],
         self\<lparr>busy := False\<rparr>, cyc, None))
   \<and> (latency_injector_process_frame LC rnd self cyc frame direction = (evs, s', c', err) \<and>
      ((Push (STTMuteFrame False) UPSTREAM \<in> fst ` set evs \<and> (frame, direction) \<noteq> (STTMuteFrame False, UPSTREAM))
       \<or> (busy self \<and> \<not> busy s')) \<longrightarrow>
      busy self \<and> direction = DOWNSTREAM \<and> is_tts_speak frame)"
proof (intro conjI impI)
  assume a: "is_context_frame frame \<and> pick_latency LC rnd self cyc = Inr (latency, s, c)"
  then show "latency_injector_process_frame LC rnd self cyc frame DOWNSTREAM =
        ([(Push (STTMuteFrame True) UPSTREAM, busy self), (Sleep latency, True),
          (Push frame DOWNSTREAM, True)],
         s\<lparr>busy := True\<rparr>, c, None)"
    by (simp add: process_frame_context)
  from a show "latency_seconds (s\<lparr>busy := True\<rparr>) = Some latency"
    using pick_latency_caches[of LC rnd self cyc latency s c] by simp
next
  assume a: "busy self \<and> is_tts_speak frame"
  then have "\<not> is_context_frame frame" using context_not_tts by blast
  then show "latency_injector_process_frame LC rnd self cyc frame DOWNSTREAM =
        ([(Push (STTMuteFrame False) UPSTREAM, True), (Push frame DOWNSTREAM, False)],
         self\<lparr>busy := False\<rparr>, cyc, None)"
    using a by (simp add: process_frame_other)
next
  assume a: "latency_injector_process_frame LC rnd self cyc frame direction = (evs, s', c', err) \<and>
      ((Push (STTMuteFrame False) UPSTREAM \<in> fst ` set evs \<and> (frame, direction) \<noteq> (STTMuteFrame False, UPSTREAM))
       \<or> (busy self \<and> \<not> busy s'))"
  show "busy self"
  proof (cases "direction = DOWNSTREAM \<and> is_context_frame frame")
    case True
    then show ?thesis using a
      by (auto simp: process_frame_context split: sum.splits prod.splits)
  next
    case False
    then show ?thesis using a
      by (auto simp: process_frame_other split: if_splits)
  qed
  show "direction = DOWNSTREAM"
  proof (cases "direction = DOWNSTREAM \<and> is_context_frame frame")
    case True
    then show ?thesis by simp
  next
    case False
    then show ?thesis using a
      by (auto simp: process_frame_other split: if_splits)
  qed
  show "is_tts_speak frame"
  proof (cases "direction = DOWNSTREAM \<and> is_context_frame frame")
    case True
    then show ?thesis using a
      by (auto simp: process_frame_context split: sum.splits prod.splits)
  next
    case False
    then show ?thesis using a
      by (auto simp: process_frame_other split: if_splits)
  qed
qed

theorem latency_injector_mute_protocol_witness:
  "latency_injector_process_frame [3, 7, 1 / 10 :: rat] 0
      \<lparr>choices = [3, 7, 1 / 10], strategy = ''round_robin'', latency_seconds = None, busy = False\<rparr>
      0 OpenAILLMContextFrame DOWNSTREAM
     = ([(Push (STTMuteFrame True) UPSTREAM, False), (Sleep 3, True),
         (Push OpenAILLMContextFrame DOWNSTREAM, True)],
        \<lparr>choices = [3, 7, 1 / 10], strategy = ''round_robin'', latency_seconds = Some 3, busy = True\<rparr>,
        1, None)
   \<and> latency_injector_process_frame [3, 7, 1 / 10 :: rat] 0
      \<lparr>choices = [3, 7, 1 / 10], strategy = ''round_robin'', latency_seconds = Some 3, busy = True\<rparr>
      1 (TTSSpeakFrame ''Guten Tag.'') DOWNSTREAM
     = ([(Push (STTMuteFrame False) UPSTREAM, True),
         (Push (TTSSpeakFrame ''Guten Tag.'') DOWNSTREAM, False)],
        \<lparr>choices = [3, 7, 1 / 10], strategy = ''round_robin'', latency_seconds = Some 3, busy = False\<rparr>,
        1, None)"
proof -
  let ?s0 = "\<lparr>choices = [3, 7, 1 / 10 :: rat], strategy = ''round_robin'',
              latency_seconds = None, busy = False\<rparr>"
  let ?s1 = "\<lparr>choices = [3, 7, 1 / 10 :: rat], strategy = ''round_robin'',
              latency_seconds = Some 3, busy = False\<rparr>"
  let ?s2 = "\<lparr>choices = [3, 7, 1 / 10 :: rat], strategy = ''round_robin'',
              latency_seconds = Some 3, busy = True\<rparr>"
  have pick: "pick_latency [3, 7, 1 / 10 :: rat] 0 ?s0 0 = Inr (3, ?s1, 1)"
    by (simp add: pick_latency_def next_latency_round_robin_def)
  have ctx: "is_context_frame OpenAILLMContextFrame" by simp
  have "latency_injector_process_frame [3, 7, 1 / 10 :: rat] 0 ?s0 0 OpenAILLMContextFrame DOWNSTREAM
     = ([(Push (STTMuteFrame True) UPSTREAM, busy ?s0), (Sleep 3, True),
         (Push OpenAILLMContextFrame DOWNSTREAM, True)],
        ?s1\<lparr>busy := True\<rparr>, 1, None)"
    by (rule latency_injector_mute_protocol
      [where frame = OpenAILLMContextFrame and LC = "[3, 7, 1 / 10 :: rat]" and self = "?s0"
         and rnd = 0 and cyc = 0 and latency = 3 and s = "?s1" and c = 1,
       THEN conjunct1, THEN mp, OF conjI[OF ctx pick], THEN conjunct1])
  then have a: "latency_injector_process_frame [3, 7, 1 / 10 :: rat] 0 ?s0 0
        OpenAILLMContextFrame DOWNSTREAM
     = ([(Push (STTMuteFrame True) UPSTREAM, False), (Sleep 3, True),
         (Push OpenAILLMContextFrame DOWNSTREAM, True)], ?s2, 1, None)"
    by simp
  have tts: "busy ?s2 \<and> is_tts_speak (TTSSpeakFrame ''Guten Tag.'')" by simp
  have "latency_injector_process_frame [3, 7, 1 / 10 :: rat] 0 ?s2 1
             (TTSSpeakFrame ''Guten Tag.'') DOWNSTREAM
     = ([(Push (STTMuteFrame False) UPSTREAM, True),
         (Push (TTSSpeakFrame ''Guten Tag.'') DOWNSTREAM, False)],
        ?s2\<lparr>busy := False\<rparr>, 1, None)"
    by (rule latency_injector_mute_protocol
      [where frame = "TTSSpeakFrame ''Guten Tag.''" and LC = "[3, 7, 1 / 10 :: rat]"
         and self = "?s2" and rnd = 0 and cyc = 1,
       THEN conjunct2, THEN conjunct1, THEN mp, OF tts])
  then have b: "latency_injector_process_frame [3, 7, 1 / 10 :: rat] 0 ?s2 1
             (TTSSpeakFrame ''Guten Tag.'') DOWNSTREAM
     = ([(Push (STTMuteFrame False) UPSTREAM, True),
         (Push (TTSSpeakFrame ''Guten Tag.'') DOWNSTREAM, False)], ?s1, 1, None)"
    by simp
  show ?thesis by (rule conjI[OF a b])
qed

lemma session_latency_round_robin:
  "LC \<noteq> [] \<Longrightarrow>
   session_latency LC ''round_robin'' rnd cyc =
     Inr (LC ! (cyc mod length LC),
          \<lparr>choices = LC, strategy = ''round_robin'',
             latency_seconds = Some (LC ! (cyc mod length LC)), busy = False\<rparr>,
          cyc + 1)"
  by (simp add: session_latency_def LatencyInjector_init_def pick_latency_def
      next_latency_round_robin_def)

lemma sessions_rotate:
  "LC \<noteq> [] \<Longrightarrow>
   sessions LC rnds cyc =
     Inr (map (\<lambda>j. LC ! ((cyc + j) mod length LC)) [0..<length rnds], cyc + length rnds)"
proof (induction rnds arbitrary: cyc)
  case Nil
  then show ?case by simp
next
  case (Cons rnd rnds)
  have "sessions LC rnds (cyc + 1) =
     Inr (map (\<lambda>j. LC ! ((cyc + 1 + j) mod length LC)) [0..<length rnds], cyc + 1 + length rnds)"
    using Cons.prems by (rule Cons.IH)
  then show ?case
    using Cons.prems
    by (simp add: session_latency_round_robin map_upt_Suc del: upt_Suc)
qed

text \<open>
  C7. A second call of \<^verbatim>\<open>_pick_latency\<close> on the injector the first call left returns
  the same delay and changes nothing, whatever the entropy. Under the
  \<^verbatim>\<open>round_robin\<close> setting, with a non-empty \<open>LATENCY_CHOICES\<close>, the \<open>j\<close>-th session of
  a process (counting from 0) gets the candidate at index \<open>j mod length\<close>: the
  candidates in order, starting again at the first after the last.
\<close>

theorem pick_latency_cached_round_robin_rotates:
  "(pick_latency LC rnd self cyc = Inr (v, s, c) \<longrightarrow>
      pick_latency LC rnd' s c = Inr (v, s, c))
   \<and> (LC \<noteq> [] \<longrightarrow>
      sessions LC rnds 0 =
        Inr (map (\<lambda>j. LC ! (j mod length LC)) [0..<length rnds], length rnds))"
proof (intro conjI impI)
  assume a: "pick_latency LC rnd self cyc = Inr (v, s, c)"
  then have "latency_seconds s = Some v" by (rule pick_latency_caches)
  then show "pick_latency LC rnd' s c = Inr (v, s, c)"
    by (simp add: pick_latency_def)
next
  assume "LC \<noteq> []"
  then show "sessions LC rnds 0 =
        Inr (map (\<lambda>j. LC ! (j mod length LC)) [0..<length rnds], length rnds)"
    using sessions_rotate[of LC rnds 0] by simp
qed

theorem pick_latency_cached_round_robin_rotates_witness:
  "sessions [3, 7, 1 / 10 :: rat] [5, 0, 2, 9] 0 = Inr ([3, 7, 1 / 10, 3], 4)
   \<and> pick_latency [3, 7, 1 / 10 :: rat] 1
        \<lparr>choices = [3, 7, 1 / 10], strategy = ''round_robin'', latency_seconds = Some 3, busy = False\<rparr> 1
      = Inr (3, \<lparr>choices = [3, 7, 1 / 10], strategy = ''round_robin'',
                  latency_seconds = Some 3, busy = False\<rparr>, 1)"
proof -
  let ?s0 = "\<lparr>choices = [3, 7, 1 / 10 :: rat], strategy = ''round_robin'',
              latency_seconds = None, busy = False\<rparr>"
  let ?s1 = "\<lparr>choices = [3, 7, 1 / 10 :: rat], strategy = ''round_robin'',
              latency_seconds = Some 3, busy = False\<rparr>"
  have ne: "[3, 7, 1 / 10 :: rat] \<noteq> []" by simp
  have "sessions [3, 7, 1 / 10 :: rat] [5, 0, 2, 9] 0 =
        Inr (map (\<lambda>j. [3, 7, 1 / 10 :: rat] ! (j mod length [3, 7, 1 / 10 :: rat]))
               [0..<length [5, 0, 2, 9 :: nat]], length [5, 0, 2, 9 :: nat])"
    using pick_latency_cached_round_robin_rotates
      [where LC = "[3, 7, 1 / 10 :: rat]" and rnds = "[5, 0, 2, 9]"] ne
    by blast
  also have "\<dots> = Inr ([3, 7, 1 / 10, 3], 4)"
    by (simp add: upt_rec)
  finally have a: "sessions [3, 7, 1 / 10 :: rat] [5, 0, 2, 9] 0 = Inr ([3, 7, 1 / 10, 3], 4)" .
  have pick: "pick_latency [3, 7, 1 / 10 :: rat] 0 ?s0 0 = Inr (3, ?s1, 1)"
    by (simp add: pick_latency_def next_latency_round_robin_def)
  have b: "pick_latency [3, 7, 1 / 10 :: rat] 1 ?s1 1 = Inr (3, ?s1, 1)"
    using pick_latency_cached_round_robin_rotates
      [where LC = "[3, 7, 1 / 10 :: rat]" and rnd = 0 and self = "?s0" and cyc = 0
         and v = 3 and s = "?s1" and c = 1 and rnd' = 1] pick
    by blast
  from a b show ?thesis by simp
qed

text \<open>
  C8. The callback returns true exactly when the filter's bot-is-speaking flag or the
  injector's \<open>busy\<close> flag is set. After the injector has processed a
  \<^verbatim>\<open>TTSSpeakFrame\<close> travelling downstream, \<open>busy\<close> is clear, so the callback returns
  the bot-is-speaking flag alone: false when that flag is not set. After a context
  frame for which \<^verbatim>\<open>_pick_latency\<close> returned, it returns true.
\<close>

theorem should_mute_iff_speaking_or_busy:
  "should_mute_callback bot_is_speaking injector = (bot_is_speaking \<or> busy injector)
   \<and> (is_tts_speak frame \<and>
      latency_injector_process_frame LC rnd injector cyc frame DOWNSTREAM = (evs, s', c', err) \<longrightarrow>
        should_mute_callback bot_is_speaking s' = bot_is_speaking
        \<and> should_mute_callback False s' = False)
   \<and> (is_context_frame frame \<and>
      latency_injector_process_frame LC rnd injector cyc frame DOWNSTREAM = (evs, s', c', err) \<longrightarrow>
        should_mute_callback bot_is_speaking s')"
proof (intro conjI impI)
  show "should_mute_callback bot_is_speaking injector = (bot_is_speaking \<or> busy injector)"
    by (simp add: should_mute_callback_def)
next
  assume a: "is_tts_speak frame \<and>
      latency_injector_process_frame LC rnd injector cyc frame DOWNSTREAM = (evs, s', c', err)"
  then have "\<not> is_context_frame frame" using context_not_tts by blast
  with a have nb: "\<not> busy s'"
    by (auto simp: process_frame_other split: if_splits)
  then show "should_mute_callback bot_is_speaking s' = bot_is_speaking"
    by (simp add: should_mute_callback_def)
  from nb show "should_mute_callback False s' = False"
    by (simp add: should_mute_callback_def)
next
  assume a: "is_context_frame frame \<and>
      latency_injector_process_frame LC rnd injector cyc frame DOWNSTREAM = (evs, s', c', err)"
  then have "busy s'"
    by (auto simp: process_frame_context split: sum.splits prod.splits)
  then show "should_mute_callback bot_is_speaking s'"
    by (simp add: should_mute_callback_def)
qed

theorem should_mute_iff_speaking_or_busy_witness:
  "should_mute_callback False
     \<lparr>choices = [3, 7, 1 / 10 :: rat], strategy = ''round_robin'', latency_seconds = Some 3, busy = True\<rparr>
   \<and> \<not> should_mute_callback False
     \<lparr>choices = [3, 7, 1 / 10 :: rat], strategy = ''round_robin'', latency_seconds = Some 3, busy = False\<rparr>"
proof -
  let ?fresh = "\<lparr>choices = [3, 7, 1 / 10 :: rat], strategy = ''round_robin'',
              latency_seconds = None, busy = False\<rparr>"
  let ?held = "\<lparr>choices = [3, 7, 1 / 10 :: rat], strategy = ''round_robin'',
              latency_seconds = Some 3, busy = True\<rparr>"
  let ?released = "\<lparr>choices = [3, 7, 1 / 10 :: rat], strategy = ''round_robin'',
              latency_seconds = Some 3, busy = False\<rparr>"
  have p1: "is_context_frame OpenAILLMContextFrame \<and>
      latency_injector_process_frame [3, 7, 1 / 10 :: rat] 0 ?fresh 0 OpenAILLMContextFrame DOWNSTREAM
        = ([(Push (STTMuteFrame True) UPSTREAM, False), (Sleep 3, True),
         (Push OpenAILLMContextFrame DOWNSTREAM, True)],
           ?held, 1, None)"
    by (simp add: latency_injector_process_frame_def pick_latency_def next_latency_round_robin_def)
  have p2: "is_tts_speak (TTSSpeakFrame ''Guten Tag.'') \<and>
      latency_injector_process_frame [3, 7, 1 / 10 :: rat] 0 ?held 1
          (TTSSpeakFrame ''Guten Tag.'') DOWNSTREAM
        = ([(Push (STTMuteFrame False) UPSTREAM, True),
         (Push (TTSSpeakFrame ''Guten Tag.'') DOWNSTREAM, False)],
           ?released, 1, None)"
    by (simp add: latency_injector_process_frame_def)
  have a: "should_mute_callback False ?held"
    using should_mute_iff_speaking_or_busy
      [where frame = OpenAILLMContextFrame and LC = "[3, 7, 1 / 10 :: rat]" and injector = "?fresh"
         and rnd = 0 and cyc = 0 and s' = "?held" and c' = 1 and err = None
         and bot_is_speaking = False
         and evs = "[(Push (STTMuteFrame True) UPSTREAM, False), (Sleep 3, True),
                     (Push OpenAILLMContextFrame DOWNSTREAM, True)]"]
      p1
    by blast
  have b: "should_mute_callback False ?released = False"
    using should_mute_iff_speaking_or_busy
      [where frame = "TTSSpeakFrame ''Guten Tag.''" and LC = "[3, 7, 1 / 10 :: rat]" and injector = "?held"
         and rnd = 0 and cyc = 1 and s' = "?released" and c' = 1 and err = None
         and bot_is_speaking = False
         and evs = "[(Push (STTMuteFrame False) UPSTREAM, True),
                     (Push (TTSSpeakFrame ''Guten Tag.'') DOWNSTREAM, False)]"]
      p2
    by blast
  from a b show ?thesis by simp
qed

section \<open>Call-number allocator: proofs\<close>

lemma digit_cases: "d < 10 \<Longrightarrow> d \<in> {0, 1, 2, 3, 4, 5, 6, 7, 8, 9 :: nat}"
  by auto

lemma digit_val_digit_char: "d < 10 \<Longrightarrow> digit_val (digit_char d) = d"
  using digit_cases[of d] by (auto simp: digit_val_def digit_char_def)

lemma digit_char_not_minus: "d < 10 \<Longrightarrow> digit_char d \<noteq> CHR ''-''"
  using digit_cases[of d] by (auto simp: digit_char_def)

lemma dec_val_snoc: "dec_val (s @ [c]) = 10 * dec_val s + digit_val c"
  by (simp add: dec_val_def)

lemma dec_val_dec_digits: "dec_val (dec_digits n) = n"
proof (induction n rule: dec_digits.induct)
  case (1 n)
  show ?case
  proof (cases "n < 10")
    case True
    then show ?thesis
      by (subst dec_digits.simps) (simp add: dec_val_def digit_val_digit_char)
  next
    case False
    then have "dec_val (dec_digits (n div 10)) = n div 10" using 1 by simp
    then show ?thesis using False
      by (subst dec_digits.simps) (simp add: dec_val_snoc digit_val_digit_char)
  qed
qed

lemma dec_digits_nonempty: "dec_digits n \<noteq> []"
  by (subst dec_digits.simps) simp

lemma dec_digits_no_minus: "CHR ''-'' \<notin> set (dec_digits n)"
proof (induction n rule: dec_digits.induct)
  case (1 n)
  show ?case
  proof (cases "n < 10")
    case True
    then show ?thesis
      using digit_char_not_minus[of n] by (subst dec_digits.simps) auto
  next
    case False
    then have "CHR ''-'' \<notin> set (dec_digits (n div 10))" using 1 by simp
    then show ?thesis using False digit_char_not_minus[of "n mod 10"]
      by (subst dec_digits.simps) auto
  qed
qed

lemma digit_val_zero: "digit_val (CHR ''0'') = 0"
  by (simp add: digit_val_def)

lemma dec_val_replicate_zero: "dec_val (replicate k (CHR ''0'') @ s) = dec_val s"
proof -
  have "foldl (\<lambda>a c. 10 * a + digit_val c) 0 (replicate k (CHR ''0'')) = 0"
    by (induction k) (simp_all add: digit_val_zero)
  then show ?thesis by (simp add: dec_val_def)
qed

lemma dec_val_zero_pad: "dec_val (zero_pad w s) = dec_val s"
  by (simp add: zero_pad_def dec_val_replicate_zero)

lemma zero_pad_no_minus: "CHR ''-'' \<notin> set s \<Longrightarrow> CHR ''-'' \<notin> set (zero_pad w s)"
  by (auto simp: zero_pad_def)

lemma zero_pad_nonempty: "s \<noteq> [] \<Longrightarrow> zero_pad w s \<noteq> []"
  by (simp add: zero_pad_def)

lemma parse_int_format_03d: "parse_int (format_03d i) = i"
proof (cases "i < 0")
  case True
  then show ?thesis
    by (simp add: format_03d_def parse_int_def dec_val_zero_pad dec_val_dec_digits)
next
  case False
  let ?s = "zero_pad 3 (dec_digits (nat i))"
  have ne: "?s \<noteq> []" by (simp add: zero_pad_nonempty dec_digits_nonempty)
  have nm: "CHR ''-'' \<notin> set ?s" by (simp add: zero_pad_no_minus dec_digits_no_minus)
  obtain c cs where s: "?s = c # cs" using ne by (cases ?s) auto
  with nm have "c \<noteq> CHR ''-''" by auto
  then have "parse_int ?s = int (dec_val ?s)"
    using s by (simp add: parse_int_def)
  then show ?thesis using False
    by (simp add: format_03d_def dec_val_zero_pad dec_val_dec_digits)
qed

lemma inj_format_03d: "inj format_03d"
  by (rule inj_on_inverseI[where g = parse_int]) (rule parse_int_format_03d)

lemma distinct_initial_pool: "distinct (map format_03d [a..b])"
  by (simp add: distinct_map inj_on_subset[OF inj_format_03d])

lemma get_number_step:
  "pool \<noteq> [] \<Longrightarrow>
   \<exists>number. get_number rnd (Some pool) = Inr (number, Some (remove1 number pool)) \<and> number \<in> set pool"
  by (simp add: get_number_def load_pool_def save_pool_def Let_def)

lemma get_numbers_mset:
  "length rnds \<le> length pool \<Longrightarrow>
   \<exists>numbers rest. get_numbers rnds (Some pool) = Inr (numbers, Some rest)
      \<and> length numbers = length rnds \<and> mset numbers + mset rest = mset pool"
proof (induction rnds arbitrary: pool)
  case Nil
  then show ?case by simp
next
  case (Cons rnd rnds)
  then have ne: "pool \<noteq> []" by auto
  then obtain number where
    step: "get_number rnd (Some pool) = Inr (number, Some (remove1 number pool))"
    and mem: "number \<in> set pool"
    using get_number_step by blast
  have "length rnds \<le> length (remove1 number pool)"
    using Cons.prems mem by (simp add: length_remove1)
  then obtain numbers rest where
    run: "get_numbers rnds (Some (remove1 number pool)) = Inr (numbers, Some rest)"
    and len: "length numbers = length rnds"
    and ms: "mset numbers + mset rest = mset (remove1 number pool)"
    using Cons.IH by blast
  have "mset (number # numbers) + mset rest = mset pool"
    using ms mem by simp
  then show ?case using step run len by simp
qed

lemma get_numbers_exhausted:
  "length rnds = Suc (length pool) \<Longrightarrow> get_numbers rnds (Some pool) = Inl RuntimeError"
proof (induction rnds arbitrary: pool)
  case Nil
  then show ?case by simp
next
  case (Cons rnd rnds)
  show ?case
  proof (cases "pool = []")
    case True
    then show ?thesis by (simp add: get_number_def load_pool_def)
  next
    case False
    then obtain number where
      step: "get_number rnd (Some pool) = Inr (number, Some (remove1 number pool))"
      and mem: "number \<in> set pool"
      using get_number_step by blast
    have "0 < length pool" using False by simp
    then have "length rnds = Suc (length (remove1 number pool))"
      using Cons.prems mem by (simp add: length_remove1)
    then have "get_numbers rnds (Some (remove1 number pool)) = Inl RuntimeError"
      by (rule Cons.IH)
    then show ?thesis using step by simp
  qed
qed

lemma length_zero_pad: "length (zero_pad w s) = max w (length s)"
  by (simp add: zero_pad_def)

lemma length_dec_digits_pos: "0 < length (dec_digits n)"
  using dec_digits_nonempty[of n] by simp

lemma length_dec_digits_small: "n < 1000 \<Longrightarrow> length (dec_digits n) \<le> 3"
proof -
  assume n: "n < 1000"
  have one: "\<And>m. m < 10 \<Longrightarrow> length (dec_digits m) = 1"
    by (subst dec_digits.simps) simp
  have two: "\<And>m. m < 100 \<Longrightarrow> length (dec_digits m) \<le> 2"
  proof -
    fix m :: nat
    assume "m < 100"
    then have "m div 10 < 10" by simp
    then have "length (dec_digits (m div 10)) = 1" by (rule one)
    then show "length (dec_digits m) \<le> 2"
      by (subst dec_digits.simps) simp
  qed
  from n have "n div 10 < 100" by simp
  then have "length (dec_digits (n div 10)) \<le> 2" by (rule two)
  then show ?thesis
    by (subst dec_digits.simps) simp
qed

lemma digit_char_is_digit: "d < 10 \<Longrightarrow> digit_char d \<in> set ''0123456789''"
  using digit_cases[of d] by (auto simp: digit_char_def)

lemma dec_digits_are_digits: "set (dec_digits n) \<subseteq> set ''0123456789''"
proof (induction n rule: dec_digits.induct)
  case (1 n)
  show ?case
  proof (cases "n < 10")
    case True
    then show ?thesis
      using digit_char_is_digit[of n] by (subst dec_digits.simps) simp
  next
    case False
    then have "set (dec_digits (n div 10)) \<subseteq> set ''0123456789''" using 1 by simp
    then show ?thesis using False digit_char_is_digit[of "n mod 10"]
      by (subst dec_digits.simps) simp
  qed
qed

lemma length_format_03d_ge: "3 \<le> length (format_03d i)"
  using length_dec_digits_pos[of "nat (- i)"]
  by (simp add: format_03d_def length_zero_pad)

lemma format_03d_three_digits:
  assumes "0 \<le> i" and "i \<le> 999"
  shows "length (format_03d i) = 3 \<and> set (format_03d i) \<subseteq> set ''0123456789''"
proof -
  from assms have "nat i < 1000" by simp
  then have "length (dec_digits (nat i)) \<le> 3" by (rule length_dec_digits_small)
  then have len: "length (format_03d i) = 3"
    using assms by (simp add: format_03d_def length_zero_pad)
  have "set (zero_pad 3 (dec_digits (nat i))) \<subseteq> set ''0123456789''"
    using dec_digits_are_digits[of "nat i"] by (auto simp: zero_pad_def)
  then show ?thesis using len assms by (simp add: format_03d_def)
qed

text \<open>
  C4, as the code has it. From a pool file that does not exist yet, \<open>k\<close> calls of
  \<^verbatim>\<open>get_number\<close> with \<open>k\<close> at most the size of the pool all return; the \<open>k\<close> numbers
  are pairwise distinct; each is \<^verbatim>\<open>f"{i:03d}"\<close> of an \<open>i\<close> of the inclusive range, so
  at least three characters long, and exactly three decimal digits when the range
  lies within 0..999; the file is left with the size of the pool less \<open>k\<close> entries;
  the entries left and the numbers issued are disjoint and together are the numbers of
  the whole range. \<^verbatim>\<open>get_number\<close> on an empty pool raises \<^verbatim>\<open>RuntimeError\<close>, and so
  does the last of one more call than the pool has entries.
\<close>

theorem call_numbers_unique_until_exhausted:
  assumes k: "length rnds \<le> length [RANGE_START..RANGE_END]"
  shows "\<exists>numbers rest.
      get_numbers rnds (ensure_pool RANGE_START RANGE_END None) = Inr (numbers, Some rest)
      \<and> length numbers = length rnds
      \<and> distinct numbers
      \<and> set numbers \<subseteq> format_03d ` {RANGE_START..RANGE_END}
      \<and> (\<forall>n\<in>set numbers. 3 \<le> length n)
      \<and> (0 \<le> RANGE_START \<and> RANGE_END \<le> 999 \<longrightarrow>
           (\<forall>n\<in>set numbers. length n = 3 \<and> set n \<subseteq> set ''0123456789''))
      \<and> length rest = length [RANGE_START..RANGE_END] - length rnds
      \<and> set rest \<union> set numbers = format_03d ` {RANGE_START..RANGE_END}
      \<and> set rest \<inter> set numbers = {}
      \<and> get_number rnd (Some []) = Inl RuntimeError
      \<and> (length more_rnds = Suc (length [RANGE_START..RANGE_END]) \<longrightarrow>
           get_numbers more_rnds (ensure_pool RANGE_START RANGE_END None) = Inl RuntimeError)"
proof -
  let ?pool = "map format_03d [RANGE_START..RANGE_END]"
  have created: "ensure_pool RANGE_START RANGE_END None = Some ?pool"
    by (simp add: ensure_pool_def save_pool_def)
  have "length rnds \<le> length ?pool" using k by simp
  then obtain numbers rest where
    run: "get_numbers rnds (Some ?pool) = Inr (numbers, Some rest)"
    and len: "length numbers = length rnds"
    and ms: "mset numbers + mset rest = mset ?pool"
    using get_numbers_mset by blast
  from ms have ms': "mset (numbers @ rest) = mset ?pool" by simp
  have "distinct (numbers @ rest)"
    using mset_eq_imp_distinct_iff[OF ms'] distinct_initial_pool by blast
  then have d1: "distinct numbers" and d2: "set rest \<inter> set numbers = {}"
    by auto
  have "set (numbers @ rest) = set ?pool"
    using ms' by (rule mset_eq_setD)
  then have un: "set rest \<union> set numbers = format_03d ` {RANGE_START..RANGE_END}"
    by auto
  then have sub: "set numbers \<subseteq> format_03d ` {RANGE_START..RANGE_END}"
    by blast
  have "length (numbers @ rest) = length ?pool"
    using ms' by (rule mset_eq_length)
  then have lr: "length rest = length [RANGE_START..RANGE_END] - length rnds"
    using len by simp
  have ge: "\<forall>n\<in>set numbers. 3 \<le> length n"
    using sub length_format_03d_ge by auto
  have three: "0 \<le> RANGE_START \<and> RANGE_END \<le> 999 \<longrightarrow>
           (\<forall>n\<in>set numbers. length n = 3 \<and> set n \<subseteq> set ''0123456789'')"
  proof (intro impI ballI)
    fix n
    assume r: "0 \<le> RANGE_START \<and> RANGE_END \<le> 999" and n: "n \<in> set numbers"
    then obtain i where "n = format_03d i" and "RANGE_START \<le> i" and "i \<le> RANGE_END"
      using sub by auto
    then show "length n = 3 \<and> set n \<subseteq> set ''0123456789''"
      using r format_03d_three_digits[of i] by simp
  qed
  have ex: "get_number rnd (Some []) = Inl RuntimeError"
    by (simp add: get_number_def load_pool_def)
  have over: "length more_rnds = Suc (length [RANGE_START..RANGE_END]) \<longrightarrow>
           get_numbers more_rnds (ensure_pool RANGE_START RANGE_END None) = Inl RuntimeError"
    using get_numbers_exhausted[of more_rnds ?pool] created by simp
  show ?thesis
    using created run len d1 sub ge three lr un d2 ex over by auto
qed

theorem call_numbers_unique_until_exhausted_witness:
  "get_numbers [4, 0, 7] (ensure_pool 501 503 None) = Inr ([''502'', ''501'', ''503''], Some [])
   \<and> get_numbers [4, 0, 7, 2] (ensure_pool 501 503 None) = Inl RuntimeError
   \<and> (\<exists>numbers rest.
        get_numbers [4, 0] (ensure_pool 501 503 None) = Inr (numbers, Some rest)
        \<and> distinct numbers \<and> length rest = 1
        \<and> set rest \<union> set numbers = {''501'', ''502'', ''503''})"
proof -
  have a: "get_numbers [4, 0, 7] (ensure_pool 501 503 None)
             = Inr ([''502'', ''501'', ''503''], Some [])"
    by code_simp
  have len: "length [4, 0 :: nat] \<le> length [501 .. 503 :: int]" by simp
  have img: "format_03d ` {501..503} = {''501'', ''502'', ''503''}"
  proof -
    have "format_03d ` {501..503} = set (map format_03d [501..503])"
      by (simp only: set_map set_upto)
    also have "map format_03d [501..503] = [''501'', ''502'', ''503'']"
      by code_simp
    finally show ?thesis by simp
  qed
  have more: "length [4, 0, 7, 2 :: nat] = Suc (length [501 .. 503 :: int])" by simp
  from call_numbers_unique_until_exhausted[OF len, where more_rnds = "[4, 0, 7, 2]" and rnd = 0]
  obtain numbers rest where
    r: "get_numbers [4, 0] (ensure_pool 501 503 None) = Inr (numbers, Some rest)"
    and d: "distinct numbers"
    and l: "length rest = length [501 .. 503 :: int] - length [4, 0 :: nat]"
    and u: "set rest \<union> set numbers = format_03d ` {501..503}"
    and o: "length [4, 0, 7, 2 :: nat] = Suc (length [501 .. 503 :: int]) \<longrightarrow>
           get_numbers [4, 0, 7, 2] (ensure_pool 501 503 None) = Inl RuntimeError"
    by (elim exE conjE) (rule that)
  from o more have b: "get_numbers [4, 0, 7, 2] (ensure_pool 501 503 None) = Inl RuntimeError"
    by (rule mp)
  from l have l': "length rest = 1" by simp
  have u': "set rest \<union> set numbers = {''501'', ''502'', ''503''}"
    using u img by (rule trans)
  have c: "\<exists>numbers rest.
        get_numbers [4, 0] (ensure_pool 501 503 None) = Inr (numbers, Some rest)
        \<and> distinct numbers \<and> length rest = 1
        \<and> set rest \<union> set numbers = {''501'', ''502'', ''503''}"
    by (intro exI conjI) (rule r, rule d, rule l', rule u')
  show ?thesis by (rule conjI[OF a conjI[OF b c]])
qed

text \<open>
  The claim as stated asks every number to have one fixed width. With the range
  999..1000 the pool holds \<open>''999''\<close> and \<open>''1000''\<close>, and both are issued.
\<close>

theorem call_numbers_width_counterexample:
  "get_numbers [0, 0] (ensure_pool 999 1000 None) = Inr ([''999'', ''1000''], Some [])
   \<and> length ''999'' \<noteq> length ''1000''"
  by code_simp

section \<open>Protocol serializer: proofs\<close>

lemma deserialize_not_json: "deserialize self None = Inr None"
  by (simp add: deserialize_def)

lemma deserialize_other_kind:
  "py_or (dict_get msg ''kind'') (dict_get msg ''Kind'') \<noteq> PyStr ''AudioData'' \<Longrightarrow>
   deserialize self (Some (PyDict msg)) = Inr None"
  by (simp add: deserialize_def)

lemma deserialize_audio_kind:
  assumes "py_or (dict_get msg ''kind'') (dict_get msg ''Kind'') = PyStr ''AudioData''"
    and "py_or (py_or (dict_get msg ''audioData'') (dict_get msg ''AudioData'')) (PyDict []) = PyDict audio"
  shows "deserialize self (Some (PyDict msg)) =
     (let b64 = py_or (dict_get audio ''data'') (dict_get audio ''Data'') in
      if \<not> truthy b64 then Inr None
      else
        (case py_b64decode b64 of
           Inl e \<Rightarrow> Inl e
         | Inr pcm \<Rightarrow>
             (let sr = py_or (py_or (dict_get audio ''sampleRate'')
                                    (dict_get audio ''SampleRate'')) (PyInt 16000) in
              if py_ne_int sr (sample_rate self) then
                (case py_int_arg sr of
                   Inl e \<Rightarrow> Inl e
                 | Inr inrate \<Rightarrow>
                     (case ratecv pcm inrate (sample_rate self) of
                        Inl e \<Rightarrow> Inl e
                      | Inr pcm' \<Rightarrow>
                          Inr (Some (AudioRawFrame InputAudioRawFrame pcm' (sample_rate self) 1))))
              else Inr (Some (AudioRawFrame InputAudioRawFrame pcm (sample_rate self) 1)))))"
  unfolding deserialize_def using assms by (simp del: truthy.simps)

lemma deserialize_no_payload:
  assumes "py_or (py_or (dict_get msg ''audioData'') (dict_get msg ''AudioData'')) (PyDict []) = PyDict audio"
    and "\<not> truthy (py_or (dict_get audio ''data'') (dict_get audio ''Data''))"
  shows "deserialize self (Some (PyDict msg)) = Inr None"
proof (cases "py_or (dict_get msg ''kind'') (dict_get msg ''Kind'') = PyStr ''AudioData''")
  case True
  then show ?thesis using assms by (simp add: deserialize_audio_kind)
next
  case False
  then show ?thesis by (rule deserialize_other_kind)
qed

text \<open>
  C1. The claim asks that \<^verbatim>\<open>deserialize\<close> returns \<^verbatim>\<open>None\<close> and raises nothing for
  every malformed message, undecodable base64 data and a missing audio payload
  included. The \<^verbatim>\<open>try\<close> block holds \<^verbatim>\<open>json.loads\<close> only, so the
  \<^verbatim>\<open>except ValueError: return None\<close> clause never sees what the later lines raise. For
  \<^verbatim>\<open>{"kind": "AudioData", "audioData": {"data": "A"}}\<close> the call of
  \<^verbatim>\<open>base64.b64decode\<close> raises \<^verbatim>\<open>binascii.Error\<close> (a \<^verbatim>\<open>ValueError\<close>), and for
  \<^verbatim>\<open>{"kind": "AudioData", "audioData": "x"}\<close>, which has no payload, \<^verbatim>\<open>audio.get\<close>
  raises \<^verbatim>\<open>AttributeError\<close>; both exceptions leave \<^verbatim>\<open>deserialize\<close>. A message
  that \<^verbatim>\<open>json.loads\<close> rejects is dropped, as the claim says.
\<close>

theorem deserialize_raises_on_bad_payload:
  "deserialize (ACSFrameSerializer_init 16000 True)
     (Some (PyDict [(''kind'', PyStr ''AudioData''),
                    (''audioData'', PyDict [(''data'', PyStr ''A'')])])) = Inl BinasciiError
   \<and> deserialize (ACSFrameSerializer_init 16000 True)
     (Some (PyDict [(''kind'', PyStr ''AudioData''),
                    (''audioData'', PyStr ''x'')])) = Inl AttributeError
   \<and> deserialize (ACSFrameSerializer_init 16000 True) None = Inr None"
  by code_simp

lemma ratecv_ok:
  "even (length fragment) \<Longrightarrow> 0 < inrate \<Longrightarrow> inrate \<le> 2147483647 \<Longrightarrow>
   0 < outrate \<Longrightarrow> outrate \<le> 2147483647 \<Longrightarrow>
   ratecv fragment inrate outrate = Inr (resample fragment inrate outrate)"
  by (simp add: ratecv_def c_int_def even_iff_mod_2_eq_zero)

text \<open>
  C2, as the code has it. For a JSON object whose \<^verbatim>\<open>kind\<close> is \<^verbatim>\<open>"AudioData"\<close>, whose
  audio member is an object with a non-empty string \<^verbatim>\<open>data\<close> that decodes as base64
  to \<open>pcm\<close>, and whose sample rate (16000 when the field is missing) is the integer
  \<open>sr\<close>, \<^verbatim>\<open>deserialize\<close> returns an \<^verbatim>\<open>InputAudioRawFrame\<close> with one channel at the
  serializer's rate: its audio is \<open>pcm\<close> when \<open>sr\<close> is the serializer's rate, and
  \<open>pcm\<close> converted from \<open>sr\<close> to the serializer's rate otherwise (for whole 16-bit
  frames and positive rates that fit a C \<^verbatim>\<open>int\<close>). For every other \<^verbatim>\<open>kind\<close>, the
  lower-case \<^verbatim>\<open>"audioData"\<close> included, it returns \<^verbatim>\<open>None\<close>.
\<close>

theorem deserialize_audio_data:
  "(py_or (dict_get msg ''kind'') (dict_get msg ''Kind'') = PyStr ''AudioData''
    \<and> py_or (py_or (dict_get msg ''audioData'') (dict_get msg ''AudioData'')) (PyDict []) = PyDict audio
    \<and> py_or (dict_get audio ''data'') (dict_get audio ''Data'') = PyStr payload
    \<and> payload \<noteq> []
    \<and> b64decode payload = Inr pcm
    \<and> py_or (py_or (dict_get audio ''sampleRate'') (dict_get audio ''SampleRate'')) (PyInt 16000)
        = PyInt sr
    \<and> (sr \<noteq> sample_rate self \<longrightarrow>
          even (length pcm) \<and> 0 < sr \<and> sr \<le> 2147483647
          \<and> 0 < sample_rate self \<and> sample_rate self \<le> 2147483647)
    \<longrightarrow>
      deserialize self (Some (PyDict msg)) =
        Inr (Some (AudioRawFrame InputAudioRawFrame
                     (if sr = sample_rate self then pcm else resample pcm sr (sample_rate self))
                     (sample_rate self) 1)))
   \<and> (py_or (dict_get msg ''kind'') (dict_get msg ''Kind'') \<noteq> PyStr ''AudioData'' \<longrightarrow>
        deserialize self (Some (PyDict msg)) = Inr None)"
proof (intro conjI impI)
  assume a: "py_or (dict_get msg ''kind'') (dict_get msg ''Kind'') = PyStr ''AudioData''
    \<and> py_or (py_or (dict_get msg ''audioData'') (dict_get msg ''AudioData'')) (PyDict []) = PyDict audio
    \<and> py_or (dict_get audio ''data'') (dict_get audio ''Data'') = PyStr payload
    \<and> payload \<noteq> []
    \<and> b64decode payload = Inr pcm
    \<and> py_or (py_or (dict_get audio ''sampleRate'') (dict_get audio ''SampleRate'')) (PyInt 16000)
        = PyInt sr
    \<and> (sr \<noteq> sample_rate self \<longrightarrow>
          even (length pcm) \<and> 0 < sr \<and> sr \<le> 2147483647
          \<and> 0 < sample_rate self \<and> sample_rate self \<le> 2147483647)"
  show "deserialize self (Some (PyDict msg)) =
        Inr (Some (AudioRawFrame InputAudioRawFrame
                     (if sr = sample_rate self then pcm else resample pcm sr (sample_rate self))
                     (sample_rate self) 1))"
  proof (cases "sr = sample_rate self")
    case True
    then show ?thesis using a by (simp add: deserialize_audio_kind)
  next
    case False
    with a have "ratecv pcm sr (sample_rate self) = Inr (resample pcm sr (sample_rate self))"
      by (intro ratecv_ok) simp_all
    then show ?thesis using a False by (simp add: deserialize_audio_kind)
  qed
next
  assume "py_or (dict_get msg ''kind'') (dict_get msg ''Kind'') \<noteq> PyStr ''AudioData''"
  then show "deserialize self (Some (PyDict msg)) = Inr None"
    by (rule deserialize_other_kind)
qed

theorem deserialize_audio_data_witness:
  "deserialize (ACSFrameSerializer_init 16000 True)
     (Some (PyDict [(''kind'', PyStr ''AudioData''),
                    (''audioData'', PyDict [(''data'', PyStr ''ECfw2A==''),
                                            (''sampleRate'', PyInt 8000)])]))
     = Inr (Some (AudioRawFrame InputAudioRawFrame [16, 39, 0, 0, 240, 216] 16000 1))
   \<and> deserialize (ACSFrameSerializer_init 16000 True)
     (Some (PyDict [(''kind'', PyStr ''stopAudio''), (''stopAudio'', PyDict [])])) = Inr None"
proof -
  let ?self = "ACSFrameSerializer_init 16000 True"
  let ?a = "[(''data'', PyStr ''ECfw2A==''), (''sampleRate'', PyInt 8000)]"
  let ?m = "[(''kind'', PyStr ''AudioData''), (''audioData'', PyDict ?a)]"
  let ?n = "[(''kind'', PyStr ''stopAudio''), (''stopAudio'', PyDict [])]"
  have rate: "sample_rate ?self = 16000" by (simp add: ACSFrameSerializer_init_def)
  have dec: "b64decode ''ECfw2A=='' = Inr [16, 39, 240, 216]" by code_simp
  have res: "resample [16, 39, 240, 216] 8000 16000 = [16, 39, 0, 0, 240, 216]" by code_simp
  have h: "py_or (dict_get ?m ''kind'') (dict_get ?m ''Kind'') = PyStr ''AudioData''
    \<and> py_or (py_or (dict_get ?m ''audioData'') (dict_get ?m ''AudioData'')) (PyDict []) = PyDict ?a
    \<and> py_or (dict_get ?a ''data'') (dict_get ?a ''Data'') = PyStr ''ECfw2A==''
    \<and> ''ECfw2A=='' \<noteq> []
    \<and> b64decode ''ECfw2A=='' = Inr [16, 39, 240, 216]
    \<and> py_or (py_or (dict_get ?a ''sampleRate'') (dict_get ?a ''SampleRate'')) (PyInt 16000)
        = PyInt 8000
    \<and> (8000 \<noteq> sample_rate ?self \<longrightarrow>
          even (length [16, 39, 240, 216 :: byte]) \<and> 0 < (8000 :: int) \<and> (8000 :: int) \<le> 2147483647
          \<and> 0 < sample_rate ?self \<and> sample_rate ?self \<le> 2147483647)"
    by (simp add: py_or_def dict_get_def dec rate)
  have "deserialize ?self (Some (PyDict ?m)) =
        Inr (Some (AudioRawFrame InputAudioRawFrame
                     (if 8000 = sample_rate ?self then [16, 39, 240, 216]
                      else resample [16, 39, 240, 216] 8000 (sample_rate ?self))
                     (sample_rate ?self) 1))"
    using deserialize_audio_data
      [where self = "?self" and msg = "?m" and audio = "?a" and payload = "''ECfw2A==''"
         and pcm = "[16, 39, 240, 216]" and sr = 8000, THEN conjunct1] h
    by (rule mp)
  then have a: "deserialize ?self (Some (PyDict ?m)) =
        Inr (Some (AudioRawFrame InputAudioRawFrame [16, 39, 0, 0, 240, 216] 16000 1))"
    by (simp add: rate res)
  have k: "py_or (dict_get ?n ''kind'') (dict_get ?n ''Kind'') \<noteq> PyStr ''AudioData''"
    by (simp add: py_or_def dict_get_def)
  have b: "deserialize ?self (Some (PyDict ?n)) = Inr None"
    using deserialize_audio_data[where self = "?self" and msg = "?n", THEN conjunct2] k
    by (rule mp)
  show ?thesis by (rule conjI[OF a b])
qed

text \<open>
  The claim as stated names the kind \<^verbatim>\<open>"audioData"\<close>. The code compares the kind
  with \<^verbatim>\<open>"AudioData"\<close>, so the well-formed message
  \<^verbatim>\<open>{"kind": "audioData", "audioData": {"data": "ECfw2A==", "sampleRate": 16000}}\<close>
  is dropped.
\<close>

theorem deserialize_lowercase_kind_counterexample:
  "deserialize (ACSFrameSerializer_init 16000 True)
     (Some (PyDict [(''kind'', PyStr ''audioData''),
                    (''audioData'', PyDict [(''data'', PyStr ''ECfw2A==''),
                                            (''sampleRate'', PyInt 16000)])])) = Inr None"
  by code_simp

text \<open>
  C3, as the code has it. \<^verbatim>\<open>serialize\<close> maps \<^verbatim>\<open>EndFrame\<close>, \<^verbatim>\<open>CancelFrame\<close> and
  \<^verbatim>\<open>StartInterruptionFrame\<close> to the stop-audio document when auto-stop is on and to
  \<^verbatim>\<open>None\<close> otherwise; an audio frame (any class derived from \<^verbatim>\<open>AudioRawFrame\<close>) to
  the audioData envelope with \<^verbatim>\<open>sampleRate\<close> 16000, \<^verbatim>\<open>silent\<close> false and \<^verbatim>\<open>data\<close> the
  base64 of its PCM, converted to 16000 Hz first when the frame's rate (the
  serializer's rate when the frame declares 0) is another one, for whole 16-bit
  frames and a positive rate that fits a C \<^verbatim>\<open>int\<close>; a transport-message frame, urgent
  or not, to its message; every other frame to \<^verbatim>\<open>None\<close>.
\<close>

theorem serialize_case_analysis:
  "(frame \<in> {EndFrame, CancelFrame, StartInterruptionFrame} \<longrightarrow>
      serialize self frame =
        Inr (if auto_stop_audio self
             then Some (PyDict [(''kind'', PyStr ''stopAudio''), (''stopAudio'', PyDict [])])
             else None))
   \<and> (sr = (if frame_sample_rate \<noteq> 0 then frame_sample_rate else sample_rate self)
       \<and> (sr \<noteq> 16000 \<longrightarrow> even (length audio) \<and> 0 < sr \<and> sr \<le> 2147483647) \<longrightarrow>
      serialize self (AudioRawFrame cls audio frame_sample_rate num_channels) =
        Inr (Some (PyDict
          [(''kind'', PyStr ''audioData''),
           (''audioData'',
            PyDict [(''timestamp'', PyNone),
                    (''participantRawID'', PyStr ''''),
                    (''data'', PyStr (b64encode (if sr = 16000 then audio
                                                  else resample audio sr 16000))),
                    (''silent'', PyBool False),
                    (''sampleRate'', PyInt 16000)])])))
   \<and> serialize self (TransportMessageFrame message) = Inr (Some message)
   \<and> serialize self (TransportMessageUrgentFrame message) = Inr (Some message)
   \<and> (frame \<notin> {EndFrame, CancelFrame, StartInterruptionFrame}
       \<and> (\<forall>c a r n. frame \<noteq> AudioRawFrame c a r n)
       \<and> (\<forall>m. frame \<noteq> TransportMessageFrame m \<and> frame \<noteq> TransportMessageUrgentFrame m) \<longrightarrow>
      serialize self frame = Inr None)"
proof (intro conjI impI)
  assume "frame \<in> {EndFrame, CancelFrame, StartInterruptionFrame}"
  then show "serialize self frame =
        Inr (if auto_stop_audio self
             then Some (PyDict [(''kind'', PyStr ''stopAudio''), (''stopAudio'', PyDict [])])
             else None)"
    by (auto simp: stop_audio_message_def)
next
  assume a: "sr = (if frame_sample_rate \<noteq> 0 then frame_sample_rate else sample_rate self)
       \<and> (sr \<noteq> 16000 \<longrightarrow> even (length audio) \<and> 0 < sr \<and> sr \<le> 2147483647)"
  show "serialize self (AudioRawFrame cls audio frame_sample_rate num_channels) =
        Inr (Some (PyDict
          [(''kind'', PyStr ''audioData''),
           (''audioData'',
            PyDict [(''timestamp'', PyNone),
                    (''participantRawID'', PyStr ''''),
                    (''data'', PyStr (b64encode (if sr = 16000 then audio
                                                  else resample audio sr 16000))),
                    (''silent'', PyBool False),
                    (''sampleRate'', PyInt 16000)])]))"
  proof (cases "sr = 16000")
    case True
    then show ?thesis using a by (simp add: audio_envelope_def Let_def)
  next
    case False
    with a have "ratecv audio sr 16000 = Inr (resample audio sr 16000)"
      by (intro ratecv_ok) simp_all
    then show ?thesis using a False by (simp add: audio_envelope_def Let_def)
  qed
next
  show "serialize self (TransportMessageFrame message) = Inr (Some message)" by simp
next
  show "serialize self (TransportMessageUrgentFrame message) = Inr (Some message)" by simp
next
  assume "frame \<notin> {EndFrame, CancelFrame, StartInterruptionFrame}
       \<and> (\<forall>c a r n. frame \<noteq> AudioRawFrame c a r n)
       \<and> (\<forall>m. frame \<noteq> TransportMessageFrame m \<and> frame \<noteq> TransportMessageUrgentFrame m)"
  then show "serialize self frame = Inr None"
    by (cases frame) auto
qed

theorem serialize_case_analysis_witness:
  "serialize (ACSFrameSerializer_init 16000 True) EndFrame
     = Inr (Some (PyDict [(''kind'', PyStr ''stopAudio''), (''stopAudio'', PyDict [])]))
   \<and> serialize (ACSFrameSerializer_init 16000 False) CancelFrame = Inr None
   \<and> serialize (ACSFrameSerializer_init 16000 True)
        (AudioRawFrame TTSAudioRawFrame [16, 39, 240, 216] 8000 1)
     = Inr (Some (PyDict
          [(''kind'', PyStr ''audioData''),
           (''audioData'',
            PyDict [(''timestamp'', PyNone),
                    (''participantRawID'', PyStr ''''),
                    (''data'', PyStr ''ECcAAPDY''),
                    (''silent'', PyBool False),
                    (''sampleRate'', PyInt 16000)])]))
   \<and> serialize (ACSFrameSerializer_init 16000 True) (TTSSpeakFrame ''Guten Tag.'') = Inr None"
proof -
  let ?on = "ACSFrameSerializer_init 16000 True"
  let ?off = "ACSFrameSerializer_init 16000 False"
  have on: "auto_stop_audio ?on" and off: "\<not> auto_stop_audio ?off"
    and rate: "sample_rate ?on = 16000"
    by (simp_all add: ACSFrameSerializer_init_def)
  have "EndFrame \<in> {EndFrame, CancelFrame, StartInterruptionFrame}" by simp
  then have "serialize ?on EndFrame =
        Inr (if auto_stop_audio ?on
             then Some (PyDict [(''kind'', PyStr ''stopAudio''), (''stopAudio'', PyDict [])])
             else None)"
    using serialize_case_analysis[where self = "?on" and frame = EndFrame, THEN conjunct1]
    by (rule rev_mp)
  then have a: "serialize ?on EndFrame
     = Inr (Some (PyDict [(''kind'', PyStr ''stopAudio''), (''stopAudio'', PyDict [])]))"
    using on by simp
  have "CancelFrame \<in> {EndFrame, CancelFrame, StartInterruptionFrame}" by simp
  then have "serialize ?off CancelFrame =
        Inr (if auto_stop_audio ?off
             then Some (PyDict [(''kind'', PyStr ''stopAudio''), (''stopAudio'', PyDict [])])
             else None)"
    using serialize_case_analysis[where self = "?off" and frame = CancelFrame, THEN conjunct1]
    by (rule rev_mp)
  then have b: "serialize ?off CancelFrame = Inr None"
    using off by simp
  have res: "b64encode (resample [16, 39, 240, 216] 8000 16000) = ''ECcAAPDY''" by code_simp
  have h: "(8000 :: int) = (if (8000 :: int) \<noteq> 0 then 8000 else sample_rate ?on)
       \<and> ((8000 :: int) \<noteq> 16000 \<longrightarrow>
            even (length [16, 39, 240, 216 :: byte]) \<and> 0 < (8000 :: int) \<and> (8000 :: int) \<le> 2147483647)"
    by simp
  have "serialize ?on (AudioRawFrame TTSAudioRawFrame [16, 39, 240, 216] 8000 1) =
        Inr (Some (PyDict
          [(''kind'', PyStr ''audioData''),
           (''audioData'',
            PyDict [(''timestamp'', PyNone),
                    (''participantRawID'', PyStr ''''),
                    (''data'', PyStr (b64encode (if (8000 :: int) = 16000 then [16, 39, 240, 216]
                                                  else resample [16, 39, 240, 216] 8000 16000))),
                    (''silent'', PyBool False),
                    (''sampleRate'', PyInt 16000)])]))"
    using serialize_case_analysis
      [where self = "?on" and sr = 8000 and frame_sample_rate = 8000
         and audio = "[16, 39, 240, 216]" and cls = TTSAudioRawFrame and num_channels = 1,
       THEN conjunct2, THEN conjunct1] h
    by (rule mp)
  then have c: "serialize ?on (AudioRawFrame TTSAudioRawFrame [16, 39, 240, 216] 8000 1) =
        Inr (Some (PyDict
          [(''kind'', PyStr ''audioData''),
           (''audioData'',
            PyDict [(''timestamp'', PyNone),
                    (''participantRawID'', PyStr ''''),
                    (''data'', PyStr ''ECcAAPDY''),
                    (''silent'', PyBool False),
                    (''sampleRate'', PyInt 16000)])]))"
    by (simp add: res)
  have o: "TTSSpeakFrame ''Guten Tag.'' \<notin> {EndFrame, CancelFrame, StartInterruptionFrame}
       \<and> (\<forall>c a r n. TTSSpeakFrame ''Guten Tag.'' \<noteq> AudioRawFrame c a r n)
       \<and> (\<forall>m. TTSSpeakFrame ''Guten Tag.'' \<noteq> TransportMessageFrame m
              \<and> TTSSpeakFrame ''Guten Tag.'' \<noteq> TransportMessageUrgentFrame m)"
    by simp
  have d: "serialize ?on (TTSSpeakFrame ''Guten Tag.'') = Inr None"
    using serialize_case_analysis
      [where self = "?on" and frame = "TTSSpeakFrame ''Guten Tag.''",
       THEN conjunct2, THEN conjunct2, THEN conjunct2, THEN conjunct2] o
    by (rule mp)
  show ?thesis by (rule conjI[OF a conjI[OF b conjI[OF c d]]])
qed

text \<open>
  The claim as stated sends every frame that is neither a stop signal nor audio to
  \<^verbatim>\<open>None\<close>. A transport-message frame is serialized: its message is written out.
\<close>

theorem serialize_transport_message_counterexample:
  "serialize (ACSFrameSerializer_init 16000 True)
     (TransportMessageFrame (PyDict [(''kind'', PyStr ''ping'')]))
     = Inr (Some (PyDict [(''kind'', PyStr ''ping'')]))
   \<and> serialize (ACSFrameSerializer_init 16000 True)
     (TransportMessageFrame (PyDict [(''kind'', PyStr ''ping'')])) \<noteq> Inr None"
  by simp

text \<open>
  Two messages are treated alike when they agree on what the code reads: whether the
  kind is \<^verbatim>\<open>"AudioData"\<close>, the data (or that it is falsy), and the sample rate.
\<close>

lemma deserialize_same_fields:
  assumes "(py_or (dict_get m ''kind'') (dict_get m ''Kind'') = PyStr ''AudioData'')
           = (py_or (dict_get m' ''kind'') (dict_get m' ''Kind'') = PyStr ''AudioData'')"
    and "py_or (py_or (dict_get m ''audioData'') (dict_get m ''AudioData'')) (PyDict []) = PyDict a"
    and "py_or (py_or (dict_get m' ''audioData'') (dict_get m' ''AudioData'')) (PyDict []) = PyDict a'"
    and "py_or (dict_get a ''data'') (dict_get a ''Data'')
           = py_or (dict_get a' ''data'') (dict_get a' ''Data'')
         \<or> (\<not> truthy (py_or (dict_get a ''data'') (dict_get a ''Data''))
            \<and> \<not> truthy (py_or (dict_get a' ''data'') (dict_get a' ''Data'')))"
    and "py_or (py_or (dict_get a ''sampleRate'') (dict_get a ''SampleRate'')) (PyInt 16000)
           = py_or (py_or (dict_get a' ''sampleRate'') (dict_get a' ''SampleRate'')) (PyInt 16000)"
  shows "deserialize self (Some (PyDict m)) = deserialize self (Some (PyDict m'))"
proof (cases "py_or (dict_get m ''kind'') (dict_get m ''Kind'') = PyStr ''AudioData''")
  case False
  then have "py_or (dict_get m' ''kind'') (dict_get m' ''Kind'') \<noteq> PyStr ''AudioData''"
    using assms(1) by simp
  then show ?thesis using False by (simp add: deserialize_other_kind)
next
  case True
  then have k': "py_or (dict_get m' ''kind'') (dict_get m' ''Kind'') = PyStr ''AudioData''"
    using assms(1) by simp
  show ?thesis
  proof (cases "truthy (py_or (dict_get a ''data'') (dict_get a ''Data''))")
    case False
    then have "\<not> truthy (py_or (dict_get a' ''data'') (dict_get a' ''Data''))"
      using assms(4) by auto
    then show ?thesis using False assms(2,3) by (simp add: deserialize_no_payload)
  next
    case t: True
    then have "py_or (dict_get a ''data'') (dict_get a ''Data'')
           = py_or (dict_get a' ''data'') (dict_get a' ''Data'')"
      using assms(4) by auto
    then show ?thesis
      using assms(5)
      by (simp only: deserialize_audio_kind[OF True assms(2)] deserialize_audio_kind[OF k' assms(3)])
  qed
qed

lemma one_key_get:
  "dict_get ((k, v) # kvs) key = (if key = k then v else dict_get kvs key)"
  "dict_get [] key = PyNone"
  by (simp_all add: dict_get_def)

lemma kind_either_name:
  "kn \<in> {''kind'', ''Kind''} \<Longrightarrow> an \<in> {''audioData'', ''AudioData''} \<Longrightarrow>
   (py_or (dict_get [(kn, k), (an, a)] ''kind'') (dict_get [(kn, k), (an, a)] ''Kind'')
      = PyStr ''AudioData'') = (k = PyStr ''AudioData'')"
  by (cases "truthy k") (auto simp: one_key_get py_or_def)

lemma audio_either_name:
  "kn \<in> {''kind'', ''Kind''} \<Longrightarrow> an \<in> {''audioData'', ''AudioData''} \<Longrightarrow>
   py_or (py_or (dict_get [(kn, k), (an, PyDict (x # xs))] ''audioData'')
                (dict_get [(kn, k), (an, PyDict (x # xs))] ''AudioData'')) (PyDict [])
     = PyDict (x # xs)"
  by (auto simp: one_key_get py_or_def)

lemma data_chain:
  assumes "dn \<in> {''data'', ''Data''}" and "sn \<in> {''sampleRate'', ''SampleRate''}"
  shows "truthy d \<Longrightarrow>
           py_or (dict_get [(dn, d), (sn, s)] ''data'') (dict_get [(dn, d), (sn, s)] ''Data'') = d"
    and "\<not> truthy d \<Longrightarrow>
           \<not> truthy (py_or (dict_get [(dn, d), (sn, s)] ''data'') (dict_get [(dn, d), (sn, s)] ''Data''))"
    and "truthy d \<Longrightarrow> py_or (dict_get [(dn, d)] ''data'') (dict_get [(dn, d)] ''Data'') = d"
    and "\<not> truthy (py_or (dict_get [(sn, s)] ''data'') (dict_get [(sn, s)] ''Data''))"
  using assms by (auto simp: one_key_get py_or_def)

lemma rate_chain:
  assumes "dn \<in> {''data'', ''Data''}" and "sn \<in> {''sampleRate'', ''SampleRate''}"
  shows "truthy s \<Longrightarrow>
           py_or (py_or (dict_get [(dn, d), (sn, s)] ''sampleRate'')
                        (dict_get [(dn, d), (sn, s)] ''SampleRate'')) (PyInt 16000) = s"
    and "\<not> truthy s \<Longrightarrow>
           py_or (py_or (dict_get [(dn, d), (sn, s)] ''sampleRate'')
                        (dict_get [(dn, d), (sn, s)] ''SampleRate'')) (PyInt 16000) = PyInt 16000"
    and "py_or (py_or (dict_get [(dn, d)] ''sampleRate'')
                      (dict_get [(dn, d)] ''SampleRate'')) (PyInt 16000) = PyInt 16000"
  using assms by (auto simp: one_key_get py_or_def)

lemma canonical_names:
  "''kind'' \<in> {''kind'', ''Kind''}" "''audioData'' \<in> {''audioData'', ''AudioData''}"
  "''data'' \<in> {''data'', ''Data''}" "''sampleRate'' \<in> {''sampleRate'', ''SampleRate''}"
  by simp_all

lemma envelope_same:
  assumes kn: "kn \<in> {''kind'', ''Kind''}" and an: "an \<in> {''audioData'', ''AudioData''}"
    and dn: "dn \<in> {''data'', ''Data''}" and sn: "sn \<in> {''sampleRate'', ''SampleRate''}"
    and kn': "kn' \<in> {''kind'', ''Kind''}" and an': "an' \<in> {''audioData'', ''AudioData''}"
    and dn': "dn' \<in> {''data'', ''Data''}" and sn': "sn' \<in> {''sampleRate'', ''SampleRate''}"
    and rate: "(if truthy s then s else PyInt 16000) = (if truthy s' then s' else PyInt 16000)"
  shows "deserialize self (Some (PyDict [(kn, k), (an, PyDict [(dn, d), (sn, s)])]))
       = deserialize self (Some (PyDict [(kn', k), (an', PyDict [(dn', d), (sn', s')])]))"
proof (rule deserialize_same_fields)
  show "(py_or (dict_get [(kn, k), (an, PyDict [(dn, d), (sn, s)])] ''kind'')
              (dict_get [(kn, k), (an, PyDict [(dn, d), (sn, s)])] ''Kind'') = PyStr ''AudioData'')
      = (py_or (dict_get [(kn', k), (an', PyDict [(dn', d), (sn', s')])] ''kind'')
              (dict_get [(kn', k), (an', PyDict [(dn', d), (sn', s')])] ''Kind'') = PyStr ''AudioData'')"
    by (simp only: kind_either_name[OF kn an] kind_either_name[OF kn' an'])
  show "py_or (py_or (dict_get [(kn, k), (an, PyDict [(dn, d), (sn, s)])] ''audioData'')
                     (dict_get [(kn, k), (an, PyDict [(dn, d), (sn, s)])] ''AudioData'')) (PyDict [])
      = PyDict [(dn, d), (sn, s)]"
    by (rule audio_either_name[OF kn an])
  show "py_or (py_or (dict_get [(kn', k), (an', PyDict [(dn', d), (sn', s')])] ''audioData'')
                     (dict_get [(kn', k), (an', PyDict [(dn', d), (sn', s')])] ''AudioData'')) (PyDict [])
      = PyDict [(dn', d), (sn', s')]"
    by (rule audio_either_name[OF kn' an'])
  show "py_or (dict_get [(dn, d), (sn, s)] ''data'') (dict_get [(dn, d), (sn, s)] ''Data'')
          = py_or (dict_get [(dn', d), (sn', s')] ''data'') (dict_get [(dn', d), (sn', s')] ''Data'')
        \<or> (\<not> truthy (py_or (dict_get [(dn, d), (sn, s)] ''data'') (dict_get [(dn, d), (sn, s)] ''Data''))
           \<and> \<not> truthy (py_or (dict_get [(dn', d), (sn', s')] ''data'')
                               (dict_get [(dn', d), (sn', s')] ''Data'')))"
  proof (cases "truthy d")
    case True
    then show ?thesis
      by (simp only: data_chain(1)[OF dn sn] data_chain(1)[OF dn' sn'] simp_thms)
  next
    case False
    then show ?thesis
      using data_chain(2)[OF dn sn, of d s] data_chain(2)[OF dn' sn', of d s'] by blast
  qed
  show "py_or (py_or (dict_get [(dn, d), (sn, s)] ''sampleRate'')
                     (dict_get [(dn, d), (sn, s)] ''SampleRate'')) (PyInt 16000)
      = py_or (py_or (dict_get [(dn', d), (sn', s')] ''sampleRate'')
                     (dict_get [(dn', d), (sn', s')] ''SampleRate'')) (PyInt 16000)"
    using rate rate_chain(1,2)[OF dn sn, of s d] rate_chain(1,2)[OF dn' sn', of s' d]
    by (cases "truthy s"; cases "truthy s'") simp_all
qed

lemma envelope_no_rate:
  assumes kn: "kn \<in> {''kind'', ''Kind''}" and an: "an \<in> {''audioData'', ''AudioData''}"
    and dn: "dn \<in> {''data'', ''Data''}"
  shows "deserialize self (Some (PyDict [(kn, k), (an, PyDict [(dn, d)])]))
       = deserialize self (Some (PyDict [(''kind'', k),
            (''audioData'', PyDict [(''data'', d), (''sampleRate'', PyInt 16000)])]))"
proof (rule deserialize_same_fields)
  show "(py_or (dict_get [(kn, k), (an, PyDict [(dn, d)])] ''kind'')
              (dict_get [(kn, k), (an, PyDict [(dn, d)])] ''Kind'') = PyStr ''AudioData'')
      = (py_or (dict_get [(''kind'', k), (''audioData'', PyDict [(''data'', d), (''sampleRate'', PyInt 16000)])] ''kind'')
              (dict_get [(''kind'', k), (''audioData'', PyDict [(''data'', d), (''sampleRate'', PyInt 16000)])] ''Kind'')
           = PyStr ''AudioData'')"
    by (simp only: kind_either_name[OF kn an] kind_either_name[OF canonical_names(1,2)])
  show "py_or (py_or (dict_get [(kn, k), (an, PyDict [(dn, d)])] ''audioData'')
                     (dict_get [(kn, k), (an, PyDict [(dn, d)])] ''AudioData'')) (PyDict [])
      = PyDict [(dn, d)]"
    by (rule audio_either_name[OF kn an])
  show "py_or (py_or (dict_get [(''kind'', k), (''audioData'', PyDict [(''data'', d), (''sampleRate'', PyInt 16000)])] ''audioData'')
                     (dict_get [(''kind'', k), (''audioData'', PyDict [(''data'', d), (''sampleRate'', PyInt 16000)])] ''AudioData''))
              (PyDict [])
      = PyDict [(''data'', d), (''sampleRate'', PyInt 16000)]"
    by (rule audio_either_name[OF canonical_names(1,2)])
  show "py_or (dict_get [(dn, d)] ''data'') (dict_get [(dn, d)] ''Data'')
          = py_or (dict_get [(''data'', d), (''sampleRate'', PyInt 16000)] ''data'')
                  (dict_get [(''data'', d), (''sampleRate'', PyInt 16000)] ''Data'')
        \<or> (\<not> truthy (py_or (dict_get [(dn, d)] ''data'') (dict_get [(dn, d)] ''Data''))
           \<and> \<not> truthy (py_or (dict_get [(''data'', d), (''sampleRate'', PyInt 16000)] ''data'')
                               (dict_get [(''data'', d), (''sampleRate'', PyInt 16000)] ''Data'')))"
    using dn by (cases "truthy d") (auto simp: one_key_get py_or_def)
  show "py_or (py_or (dict_get [(dn, d)] ''sampleRate'') (dict_get [(dn, d)] ''SampleRate'')) (PyInt 16000)
      = py_or (py_or (dict_get [(''data'', d), (''sampleRate'', PyInt 16000)] ''sampleRate'')
                     (dict_get [(''data'', d), (''sampleRate'', PyInt 16000)] ''SampleRate'')) (PyInt 16000)"
    using dn by (auto simp: one_key_get py_or_def)
qed

text \<open>
  C10. Written with either spelling of each field name, the envelope
  \<^verbatim>\<open>{kind: k, audioData: {data: d, sampleRate: s}}\<close> is deserialized as the one written
  in lower camel case. A falsy \<^verbatim>\<open>sampleRate\<close> and a missing one are treated as 16000.
  A falsy \<^verbatim>\<open>data\<close> (the empty string, \<^verbatim>\<open>null\<close>), a missing \<^verbatim>\<open>data\<close> and a missing
  audio member all give \<^verbatim>\<open>None\<close>, not a frame.
\<close>

theorem deserialize_field_names_and_defaults:
  "kn \<in> {''kind'', ''Kind''} \<and> an \<in> {''audioData'', ''AudioData''}
   \<and> dn \<in> {''data'', ''Data''} \<and> sn \<in> {''sampleRate'', ''SampleRate''} \<longrightarrow>
     deserialize self (Some (PyDict [(kn, k), (an, PyDict [(dn, d), (sn, s)])]))
       = deserialize self (Some (PyDict [(''kind'', k),
           (''audioData'', PyDict [(''data'', d), (''sampleRate'', s)])]))
     \<and> (\<not> truthy s \<longrightarrow>
          deserialize self (Some (PyDict [(kn, k), (an, PyDict [(dn, d), (sn, s)])]))
            = deserialize self (Some (PyDict [(''kind'', k),
                (''audioData'', PyDict [(''data'', d), (''sampleRate'', PyInt 16000)])])))
     \<and> deserialize self (Some (PyDict [(kn, k), (an, PyDict [(dn, d)])]))
          = deserialize self (Some (PyDict [(''kind'', k),
              (''audioData'', PyDict [(''data'', d), (''sampleRate'', PyInt 16000)])]))
     \<and> (\<not> truthy d \<longrightarrow>
          deserialize self (Some (PyDict [(kn, k), (an, PyDict [(dn, d), (sn, s)])])) = Inr None)
     \<and> deserialize self (Some (PyDict [(kn, k), (an, PyDict [(dn, PyStr []), (sn, s)])])) = Inr None
     \<and> deserialize self (Some (PyDict [(kn, k), (an, PyDict [(sn, s)])])) = Inr None
     \<and> deserialize self (Some (PyDict [(kn, k)])) = Inr None"
proof (intro impI)
  assume names: "kn \<in> {''kind'', ''Kind''} \<and> an \<in> {''audioData'', ''AudioData''}
   \<and> dn \<in> {''data'', ''Data''} \<and> sn \<in> {''sampleRate'', ''SampleRate''}"
  then have kn: "kn \<in> {''kind'', ''Kind''}" and an: "an \<in> {''audioData'', ''AudioData''}"
    and dn: "dn \<in> {''data'', ''Data''}" and sn: "sn \<in> {''sampleRate'', ''SampleRate''}"
    by blast+
  have c1: "deserialize self (Some (PyDict [(kn, k), (an, PyDict [(dn, d), (sn, s)])]))
       = deserialize self (Some (PyDict [(''kind'', k),
           (''audioData'', PyDict [(''data'', d), (''sampleRate'', s)])]))"
    by (rule envelope_same[OF kn an dn sn canonical_names]) simp
  have c2: "\<not> truthy s \<longrightarrow>
          deserialize self (Some (PyDict [(kn, k), (an, PyDict [(dn, d), (sn, s)])]))
            = deserialize self (Some (PyDict [(''kind'', k),
                (''audioData'', PyDict [(''data'', d), (''sampleRate'', PyInt 16000)])]))"
  proof
    assume "\<not> truthy s"
    then show "deserialize self (Some (PyDict [(kn, k), (an, PyDict [(dn, d), (sn, s)])]))
            = deserialize self (Some (PyDict [(''kind'', k),
                (''audioData'', PyDict [(''data'', d), (''sampleRate'', PyInt 16000)])]))"
      by (intro envelope_same[OF kn an dn sn canonical_names]) simp
  qed
  have c3: "deserialize self (Some (PyDict [(kn, k), (an, PyDict [(dn, d)])]))
          = deserialize self (Some (PyDict [(''kind'', k),
              (''audioData'', PyDict [(''data'', d), (''sampleRate'', PyInt 16000)])]))"
    by (rule envelope_no_rate[OF kn an dn])
  have c4: "\<And>x. \<not> truthy x \<Longrightarrow>
          deserialize self (Some (PyDict [(kn, k), (an, PyDict [(dn, x), (sn, s)])])) = Inr None"
    by (rule deserialize_no_payload[OF audio_either_name[OF kn an] data_chain(2)[OF dn sn]])
  have c5: "deserialize self (Some (PyDict [(kn, k), (an, PyDict [(sn, s)])])) = Inr None"
    by (rule deserialize_no_payload[OF audio_either_name[OF kn an] data_chain(4)[OF dn sn]])
  have "py_or (py_or (dict_get [(kn, k)] ''audioData'') (dict_get [(kn, k)] ''AudioData'')) (PyDict [])
          = PyDict []"
    using kn by (auto simp: one_key_get py_or_def)
  then have c6: "deserialize self (Some (PyDict [(kn, k)])) = Inr None"
    by (rule deserialize_no_payload) (simp add: one_key_get py_or_def)
  have c4': "deserialize self (Some (PyDict [(kn, k), (an, PyDict [(dn, PyStr []), (sn, s)])])) = Inr None"
    by (rule c4) simp
  from c1 c2 c3 c4 c4' c5 c6
  show "deserialize self (Some (PyDict [(kn, k), (an, PyDict [(dn, d), (sn, s)])]))
       = deserialize self (Some (PyDict [(''kind'', k),
           (''audioData'', PyDict [(''data'', d), (''sampleRate'', s)])]))
     \<and> (\<not> truthy s \<longrightarrow>
          deserialize self (Some (PyDict [(kn, k), (an, PyDict [(dn, d), (sn, s)])]))
            = deserialize self (Some (PyDict [(''kind'', k),
                (''audioData'', PyDict [(''data'', d), (''sampleRate'', PyInt 16000)])])))
     \<and> deserialize self (Some (PyDict [(kn, k), (an, PyDict [(dn, d)])]))
          = deserialize self (Some (PyDict [(''kind'', k),
              (''audioData'', PyDict [(''data'', d), (''sampleRate'', PyInt 16000)])]))
     \<and> (\<not> truthy d \<longrightarrow>
          deserialize self (Some (PyDict [(kn, k), (an, PyDict [(dn, d), (sn, s)])])) = Inr None)
     \<and> deserialize self (Some (PyDict [(kn, k), (an, PyDict [(dn, PyStr []), (sn, s)])])) = Inr None
     \<and> deserialize self (Some (PyDict [(kn, k), (an, PyDict [(sn, s)])])) = Inr None
     \<and> deserialize self (Some (PyDict [(kn, k)])) = Inr None"
    by blast
qed

theorem deserialize_field_names_and_defaults_witness:
  "deserialize (ACSFrameSerializer_init 16000 True)
     (Some (PyDict [(''Kind'', PyStr ''AudioData''),
                    (''AudioData'', PyDict [(''Data'', PyStr ''ECfw2A==''),
                                            (''SampleRate'', PyInt 8000)])]))
     = Inr (Some (AudioRawFrame InputAudioRawFrame [16, 39, 0, 0, 240, 216] 16000 1))
   \<and> deserialize (ACSFrameSerializer_init 16000 True)
     (Some (PyDict [(''Kind'', PyStr ''AudioData''),
                    (''AudioData'', PyDict [(''Data'', PyStr ''ECfw2A=='')])]))
     = Inr (Some (AudioRawFrame InputAudioRawFrame [16, 39, 240, 216] 16000 1))
   \<and> deserialize (ACSFrameSerializer_init 16000 True)
     (Some (PyDict [(''Kind'', PyStr ''AudioData''),
                    (''AudioData'', PyDict [(''Data'', PyStr []),
                                            (''SampleRate'', PyInt 8000)])])) = Inr None"
proof -
  let ?self = "ACSFrameSerializer_init 16000 True"
  have names: "''Kind'' \<in> {''kind'', ''Kind''} \<and> ''AudioData'' \<in> {''audioData'', ''AudioData''}
     \<and> ''Data'' \<in> {''data'', ''Data''} \<and> ''SampleRate'' \<in> {''sampleRate'', ''SampleRate''}"
    by simp
  note inst = deserialize_field_names_and_defaults
    [where self = "?self" and kn = "''Kind''" and an = "''AudioData''" and dn = "''Data''"
       and sn = "''SampleRate''" and k = "PyStr ''AudioData''" and d = "PyStr ''ECfw2A==''"
       and s = "PyInt 8000", THEN mp, OF names]
  have lower1: "deserialize ?self
     (Some (PyDict [(''kind'', PyStr ''AudioData''),
                    (''audioData'', PyDict [(''data'', PyStr ''ECfw2A==''),
                                            (''sampleRate'', PyInt 8000)])]))
     = Inr (Some (AudioRawFrame InputAudioRawFrame [16, 39, 0, 0, 240, 216] 16000 1))"
    by code_simp
  have lower2: "deserialize ?self
     (Some (PyDict [(''kind'', PyStr ''AudioData''),
                    (''audioData'', PyDict [(''data'', PyStr ''ECfw2A==''),
                                            (''sampleRate'', PyInt 16000)])]))
     = Inr (Some (AudioRawFrame InputAudioRawFrame [16, 39, 240, 216] 16000 1))"
    by code_simp
  have a: "deserialize ?self
     (Some (PyDict [(''Kind'', PyStr ''AudioData''),
                    (''AudioData'', PyDict [(''Data'', PyStr ''ECfw2A==''),
                                            (''SampleRate'', PyInt 8000)])]))
     = Inr (Some (AudioRawFrame InputAudioRawFrame [16, 39, 0, 0, 240, 216] 16000 1))"
    using inst[THEN conjunct1] lower1 by (rule trans)
  have b: "deserialize ?self
     (Some (PyDict [(''Kind'', PyStr ''AudioData''),
                    (''AudioData'', PyDict [(''Data'', PyStr ''ECfw2A=='')])]))
     = Inr (Some (AudioRawFrame InputAudioRawFrame [16, 39, 240, 216] 16000 1))"
    using inst[THEN conjunct2, THEN conjunct2, THEN conjunct1] lower2 by (rule trans)
  have c: "deserialize ?self
     (Some (PyDict [(''Kind'', PyStr ''AudioData''),
                    (''AudioData'', PyDict [(''Data'', PyStr []),
                                            (''SampleRate'', PyInt 8000)])])) = Inr None"
    by (rule inst[THEN conjunct2, THEN conjunct2, THEN conjunct2, THEN conjunct2, THEN conjunct1])
  show ?thesis by (rule conjI[OF a conjI[OF b c]])
qed

end
